theory Spec2Isabelle
  imports Main "HOL-Library.Multiset"
begin

unbundle bit_operations_syntax

section \<open>Blocks and the ledger\<close>

text \<open>
  The hash-based variant of \<^verbatim>\<open>main.go\<close> (the second program of the source file):
  a block carries a UUID string as its identity. The package-level variable
  \<^verbatim>\<open>blockchain\<close> is a field of the process state below.
\<close>

record Block =
  ID :: string
  Timestamp :: string
  Data :: string
  PrevHash :: string
  Hash :: string

record Blockchain =
  Chain :: "Block list"

section \<open>SHA-256 and hex formatting\<close>

text \<open>
  \<^verbatim>\<open>sha256.Sum256\<close> of the Go standard library, following FIPS 180-4. Words of 32 bits
  are natural numbers below \<open>2 ^ 32\<close> with the wrap-around of the addition written
  out; bytes are natural numbers below 256.
\<close>

definition add32 :: "nat \<Rightarrow> nat \<Rightarrow> nat" where
  "add32 x y = (x + y) mod 4294967296"

definition rotr :: "nat \<Rightarrow> nat \<Rightarrow> nat" where
  "rotr n x = x div 2 ^ n + (x mod 2 ^ n) * 2 ^ (32 - n)"

definition shr :: "nat \<Rightarrow> nat \<Rightarrow> nat" where
  "shr n x = x div 2 ^ n"

definition Ch :: "nat \<Rightarrow> nat \<Rightarrow> nat \<Rightarrow> nat" where
  "Ch e f g = (e AND f) XOR ((4294967295 - e) AND g)"

definition Maj :: "nat \<Rightarrow> nat \<Rightarrow> nat \<Rightarrow> nat" where
  "Maj a b c = (a AND b) XOR (a AND c) XOR (b AND c)"

definition bsig0 :: "nat \<Rightarrow> nat" where
  "bsig0 x = rotr 2 x XOR rotr 13 x XOR rotr 22 x"

definition bsig1 :: "nat \<Rightarrow> nat" where
  "bsig1 x = rotr 6 x XOR rotr 11 x XOR rotr 25 x"

definition ssig0 :: "nat \<Rightarrow> nat" where
  "ssig0 x = rotr 7 x XOR rotr 18 x XOR shr 3 x"

definition ssig1 :: "nat \<Rightarrow> nat" where
  "ssig1 x = rotr 17 x XOR rotr 19 x XOR shr 10 x"

text \<open>
  \<open>K256\<close> are the sixty-four round constants of FIPS 180-4, section 4.2.2, from
  \<open>0x428a2f98\<close> to \<open>0xc67178f2\<close>, in decimal.
\<close>

definition K256 :: "nat list" where
  "K256 = [
    1116352408, 1899447441, 3049323471, 3921009573, 961987163, 1508970993,
    2453635748, 2870763221, 3624381080, 310598401, 607225278, 1426881987,
    1925078388, 2162078206, 2614888103, 3248222580, 3835390401, 4022224774,
    264347078, 604807628, 770255983, 1249150122, 1555081692, 1996064986,
    2554220882, 2821834349, 2952996808, 3210313671, 3336571891, 3584528711,
    113926993, 338241895, 666307205, 773529912, 1294757372, 1396182291,
    1695183700, 1986661051, 2177026350, 2456956037, 2730485921, 2820302411,
    3259730800, 3345764771, 3516065817, 3600352804, 4094571909, 275423344,
    430227734, 506948616, 659060556, 883997877, 958139571, 1322822218,
    1537002063, 1747873779, 1955562222, 2024104815, 2227730452, 2361852424,
    2428436474, 2756734187, 3204031479, 3329325298]"

type_synonym digest = "nat \<times> nat \<times> nat \<times> nat \<times> nat \<times> nat \<times> nat \<times> nat"

definition init256 :: digest where
  "init256 = (0x6a09e667, 0xbb67ae85, 0x3c6ef372, 0xa54ff53a,
              0x510e527f, 0x9b05688c, 0x1f83d9ab, 0x5be0cd19)"

text \<open>
  The message schedule is kept as a window of sixteen words: round \<open>t\<close> consumes the
  head \<open>W\<^sub>t\<close> and the word \<open>W\<^sub>t\<^sub>+\<^sub>1\<^sub>6\<close> enters at the end.
\<close>

definition sched :: "nat list \<Rightarrow> nat" where
  "sched w = add32 (add32 (add32 (ssig1 (w ! 14)) (w ! 9)) (ssig0 (w ! 1))) (w ! 0)"

fun round256 :: "nat \<Rightarrow> nat \<Rightarrow> digest \<Rightarrow> digest" where
  "round256 k w (a, b, c, d, e, f, g, h) =
     (let t1 = add32 (add32 (add32 (add32 h (bsig1 e)) (Ch e f g)) k) w;
          t2 = add32 (bsig0 a) (Maj a b c)
      in (add32 t1 t2, a, b, c, add32 d t1, e, f, g))"

fun rounds256 :: "nat list \<Rightarrow> nat list \<Rightarrow> digest \<Rightarrow> digest" where
  "rounds256 [] w s = s"
| "rounds256 (k # ks) w s = rounds256 ks (tl w @ [sched w]) (round256 k (hd w) s)"

fun add_digest :: "digest \<Rightarrow> digest \<Rightarrow> digest" where
  "add_digest (a, b, c, d, e, f, g, h) (a', b', c', d', e', f', g', h') =
     (add32 a a', add32 b b', add32 c c', add32 d d',
      add32 e e', add32 f f', add32 g g', add32 h h')"

definition block256 :: "nat list \<Rightarrow> digest \<Rightarrow> digest" where
  "block256 ws H = add_digest H (rounds256 K256 ws H)"

fun be_words :: "nat list \<Rightarrow> nat list" where
  "be_words (a # b # c # d # rest) = (((a * 256 + b) * 256 + c) * 256 + d) # be_words rest"
| "be_words _ = []"

definition be64 :: "nat \<Rightarrow> nat list" where
  "be64 n = map (\<lambda>i. (n div 256 ^ i) mod 256) [7, 6, 5, 4, 3, 2, 1, 0]"

definition pad256 :: "nat list \<Rightarrow> nat list" where
  "pad256 m = m @ [128] @ replicate ((119 - length m mod 64) mod 64) 0 @ be64 (8 * length m)"

fun split16 :: "nat list \<Rightarrow> nat list list" where
  "split16 ws = (if length ws < 16 then [] else take 16 ws # split16 (drop 16 ws))"

declare split16.simps [simp del]

definition word_bytes :: "nat \<Rightarrow> nat list" where
  "word_bytes w = map (\<lambda>i. (w div 256 ^ i) mod 256) [3, 2, 1, 0]"

fun digest_bytes :: "digest \<Rightarrow> nat list" where
  "digest_bytes (a, b, c, d, e, f, g, h) = concat (map word_bytes [a, b, c, d, e, f, g, h])"

definition Sum256 :: "string \<Rightarrow> nat list" where
  "Sum256 s = digest_bytes (fold block256 (split16 (be_words (pad256 (map of_char s)))) init256)"

text \<open>\<^verbatim>\<open>fmt.Sprintf("%x", hash)\<close> on a byte array: two lower-case hex digits per byte.\<close>

definition hexdigit :: "nat \<Rightarrow> char" where
  "hexdigit n = ''0123456789abcdef'' ! n"

definition hexbyte :: "nat \<Rightarrow> string" where
  "hexbyte b = [hexdigit (b div 16), hexdigit (b mod 16)]"

definition sprintf_x :: "nat list \<Rightarrow> string" where
  "sprintf_x bs = concat (map hexbyte bs)"

text \<open>
  \<^verbatim>\<open>calculateHash(prevHash, timestamp, data, prevHash2)\<close>: the four strings are
  concatenated by \<^verbatim>\<open>fmt.Sprintf("%s%s%s%s", ...)\<close>, digested and printed in hex.
\<close>

definition calculateHash :: "string \<Rightarrow> string \<Rightarrow> string \<Rightarrow> string \<Rightarrow> string" where
  "calculateHash prevHash timestamp data prevHash2 =
     (let blockData = prevHash @ timestamp @ data @ prevHash2;
          hash = Sum256 (blockData)
      in sprintf_x hash)"

section \<open>Strings in JSON documents\<close>

text \<open>
  A Go string is a sequence of bytes. \<^verbatim>\<open>encoding/json\<close> reads and writes UTF-8:
  \<^verbatim>\<open>json.Marshal\<close> writes every byte of a string that does not belong to a valid UTF-8
  sequence as the replacement character U+FFFD, and \<^verbatim>\<open>json.Unmarshal\<close> decodes such
  a byte of a string literal to U+FFFD as well (bytes \<^verbatim>\<open>EF BF BD\<close>). Both decide
  validity with \<^verbatim>\<open>utf8.DecodeRune\<close>, whose table \<^verbatim>\<open>first\<close> gives for a leading byte the
  size of the sequence and the range accepted for its second byte; no entry stands
  for a byte that cannot lead a sequence of more than one byte.
\<close>

definition first :: "nat \<Rightarrow> (nat \<times> nat \<times> nat) option" where
  "first b =
     (if 0xC2 \<le> b \<and> b \<le> 0xDF then Some (2, 0x80, 0xBF)
      else if b = 0xE0 then Some (3, 0xA0, 0xBF)
      else if b = 0xED then Some (3, 0x80, 0x9F)
      else if 0xE1 \<le> b \<and> b \<le> 0xEF then Some (3, 0x80, 0xBF)
      else if b = 0xF0 then Some (4, 0x90, 0xBF)
      else if 0xF1 \<le> b \<and> b \<le> 0xF3 then Some (4, 0x80, 0xBF)
      else if b = 0xF4 then Some (4, 0x80, 0x8F)
      else None)"

text \<open>
  The size that \<^verbatim>\<open>utf8.DecodeRuneInString\<close> returns for a string whose first byte is
  not ASCII, with \<open>0\<close> in place of its result \<^verbatim>\<open>(RuneError, 1)\<close> for an invalid or
  incomplete sequence.
\<close>

definition runeSize :: "string \<Rightarrow> nat" where
  "runeSize s =
     (case s of
        [] \<Rightarrow> 0
      | s0 # rest \<Rightarrow>
          (case first (of_char s0) of
             None \<Rightarrow> 0
           | Some (sz, lo, hi) \<Rightarrow>
               if length s < sz then 0
               else if of_char (s ! 1) < lo \<or> hi < (of_char (s ! 1) :: nat) then 0
               else if sz \<le> 2 then 2
               else if of_char (s ! 2) < (0x80 :: nat) \<or> (0xBF :: nat) < of_char (s ! 2) then 0
               else if sz \<le> 3 then 3
               else if of_char (s ! 3) < (0x80 :: nat) \<or> (0xBF :: nat) < of_char (s ! 3) then 0
               else 4))"

text \<open>
  The string that a JSON document carries for a Go string, and that decoding a
  string literal with these bytes yields: ASCII bytes and valid sequences are kept,
  every other byte becomes U+FFFD. (The escapes that \<^verbatim>\<open>json.Marshal\<close> writes for some
  ASCII characters are a matter of the text of the document only: decoding gives
  the character back.)
\<close>

function coerce :: "string \<Rightarrow> string" where
  "coerce [] = []"
| "coerce (b # s) =
     (if of_char b < (0x80 :: nat) then b # coerce s
      else if runeSize (b # s) = 0 then CHR 0xEF # CHR 0xBF # CHR 0xBD # coerce s
      else take (runeSize (b # s)) (b # s) @ coerce (drop (runeSize (b # s)) (b # s)))"
  by pat_completeness auto
termination
  by (relation "measure length") auto

declare coerce.simps(2) [simp del]

definition coerceBlock :: "Block \<Rightarrow> Block" where
  "coerceBlock b = \<lparr>ID = coerce (ID b), Timestamp = coerce (Timestamp b), Data = coerce (Data b),
                    PrevHash = coerce (PrevHash b), Hash = coerce (Hash b)\<rparr>"

section \<open>Files, JSON documents and the process state\<close>

text \<open>
  A file holds a JSON document: an array of strings, an array of block objects, or
  \<open>Garbage\<close> for content that \<^verbatim>\<open>json.Unmarshal\<close> rejects for both slice types (text
  that is not JSON, a truncated document). The strings of a document are kept as the
  bytes between the quotes; a file that another program wrote may hold bytes there
  that are not valid UTF-8. The text \<^verbatim>\<open>[]\<close> is the empty array under both readings.
  \<^verbatim>\<open>json.Marshal\<close> cannot fail on a slice of strings or of blocks, so the branches of
  the source that handle its error are never taken.
\<close>

datatype content = Nodes "string list" | Blocks "Block list" | Garbage

definition marshalNodes :: "string list \<Rightarrow> content" where
  "marshalNodes nodes = Nodes (map coerce nodes)"

definition marshalBlocks :: "Block list \<Rightarrow> content" where
  "marshalBlocks blocks = Blocks (map coerceBlock blocks)"

text \<open>
  Go's \<^verbatim>\<open>error\<close> values as far as the program tells them apart: a missing file
  (\<^verbatim>\<open>os.IsNotExist\<close>), any other failure of a read or a write, a JSON decoding error.
\<close>

datatype error = ErrNotExist | ErrIO | ErrSyntax

fun unmarshalNodes :: "content \<Rightarrow> error + string list" where
  "unmarshalNodes (Nodes ns) = Inr (map coerce ns)"
| "unmarshalNodes (Blocks []) = Inr []"
| "unmarshalNodes (Blocks (b # bs)) = Inl ErrSyntax"
| "unmarshalNodes Garbage = Inl ErrSyntax"

fun unmarshalBlocks :: "content \<Rightarrow> error + Block list" where
  "unmarshalBlocks (Blocks bs) = Inr (map coerceBlock bs)"
| "unmarshalBlocks (Nodes []) = Inr []"
| "unmarshalBlocks (Nodes (n # ns)) = Inl ErrSyntax"
| "unmarshalBlocks Garbage = Inl ErrSyntax"

text \<open>
  How a process ends without returning: a run-time panic (index out of range) or
  \<^verbatim>\<open>log.Fatalf\<close>, which exits with status 1.
\<close>

datatype abort = PanicIndexOutOfRange | Fatal

text \<open>
  What a call of \<^verbatim>\<open>ioutil.WriteFile\<close> that returns an error leaves behind. It opens the
  file with \<^verbatim>\<open>O_WRONLY|O_CREATE|O_TRUNC\<close>, writes and closes: when the open fails the
  file is as it was (and is not created); when the write fails the file exists and
  holds a proper part of the document, possibly nothing, which is not JSON; when
  only the close fails the whole document may have been written.
\<close>

datatype leftover = Untouched | Torn | Complete

text \<open>
  The state a call works on. The program names files by path strings and the
  operating system decides which file a path names: \<open>resolve\<close> maps a path to the
  file, so that two paths of the same file, such as \<^verbatim>\<open>nodes.json\<close> and
  \<^verbatim>\<open>./data/../nodes.json\<close>, have the same image. The documents, the files whose read
  fails with an error other than "not exist", the files whose write fails and what
  such a write leaves are given per file. The program creates no directories and no
  links, so \<open>resolve\<close> never changes. \<open>logged\<close> holds the lines given to
  \<^verbatim>\<open>log.Printf\<close> so far (the format's text before its first verb).
\<close>

record world =
  blockchain :: Blockchain
  resolve :: "string \<Rightarrow> string"
  files :: "string \<rightharpoonup> content"
  unreadable :: "string set"
  unwritable :: "string set"
  leftover :: "string \<Rightarrow> leftover"
  logged :: "string list"

definition dataDirectory :: string where
  "dataDirectory = ''./data/''"

definition nodesFile :: string where
  "nodesFile = ''nodes.json''"

definition ReadFile :: "string \<Rightarrow> world \<Rightarrow> error + content" where
  "ReadFile filename w =
     (let f = resolve w filename
      in if f \<in> unreadable w then Inl ErrIO
         else case files w f of None \<Rightarrow> Inl ErrNotExist | Some data \<Rightarrow> Inr data)"

definition WriteFile :: "string \<Rightarrow> content \<Rightarrow> world \<Rightarrow> error option \<times> world" where
  "WriteFile filename data w =
     (let f = resolve w filename
      in if f \<in> unwritable w
         then (Some ErrIO,
               case leftover w f of
                 Untouched \<Rightarrow> w
               | Torn \<Rightarrow> w\<lparr>files := (files w)(f \<mapsto> Garbage)\<rparr>
               | Complete \<Rightarrow> w\<lparr>files := (files w)(f \<mapsto> data)\<rparr>)
         else (None, w\<lparr>files := (files w)(f \<mapsto> data)\<rparr>))"

definition Printf :: "string \<Rightarrow> world \<Rightarrow> world" where
  "Printf line w = w\<lparr>logged := logged w @ [line]\<rparr>"

section \<open>The replication store\<close>

text \<open>
  The loop of \<^verbatim>\<open>storeBlockData\<close> that copies every block whose ID differs from the
  new block's into \<^verbatim>\<open>updatedBlocks\<close>.
\<close>

fun removeSameID :: "Block \<Rightarrow> Block list \<Rightarrow> Block list \<Rightarrow> Block list" where
  "removeSameID block [] updatedBlocks = updatedBlocks"
| "removeSameID block (b # blocks) updatedBlocks =
     removeSameID block blocks (if ID b \<noteq> ID block then updatedBlocks @ [b] else updatedBlocks)"

text \<open>
  \<^verbatim>\<open>storeBlockData(block, nodeID)\<close>. A decoding error returns at once. A read error that
  is not "not exist" is logged and the function goes on with \<^verbatim>\<open>blocks\<close> still
  \<^verbatim>\<open>nil\<close>, as for a missing file.
\<close>

definition storeBlockData :: "Block \<Rightarrow> string \<Rightarrow> world \<Rightarrow> world" where
  "storeBlockData block nodeID w =
     (let filename = dataDirectory @ (nodeID @ ''.json'');
          finish = (\<lambda>blocks w1.
            let updatedBlocks = removeSameID block blocks [] @ [block]
            in case WriteFile filename (marshalBlocks updatedBlocks) w1 of
                 (Some err, w2) \<Rightarrow> Printf ''Error writing block data to file: '' w2
               | (None, w2) \<Rightarrow> w2)
      in case ReadFile filename w of
           Inr data \<Rightarrow>
             (case unmarshalBlocks data of
                Inl err \<Rightarrow> Printf ''Error unmarshalling block data: '' w
              | Inr blocks \<Rightarrow> finish blocks w)
         | Inl err \<Rightarrow>
             if err \<noteq> ErrNotExist
             then finish [] (Printf ''Error reading existing block data: '' w)
             else finish [] w)"

text \<open>
  Two names for stating properties: the path of a peer's data file, and the sequence
  \<^verbatim>\<open>storeBlockData\<close> starts from (empty when the file does not exist).
\<close>

definition blockFile :: "string \<Rightarrow> string" where
  "blockFile nodeID = dataDirectory @ (nodeID @ ''.json'')"

definition loadBlocks :: "string \<Rightarrow> world \<Rightarrow> error + Block list" where
  "loadBlocks nodeID w =
     (case ReadFile (blockFile nodeID) w of
        Inl err \<Rightarrow> if err = ErrNotExist then Inr [] else Inl err
      | Inr data \<Rightarrow> unmarshalBlocks data)"

section \<open>The ledger: genesis and mining\<close>

text \<open>
  \<^verbatim>\<open>uuid.New().String()\<close> and \<^verbatim>\<open>time.Now().Format("2006-01-02 15:04:05")\<close> read the
  environment; their results are arguments of the model. \<^verbatim>\<open>mineBlock\<close> reads the clock
  twice, once for the \<^verbatim>\<open>Timestamp\<close> field and once more inside the call of
  \<^verbatim>\<open>calculateHash\<close>: \<open>now1\<close> and \<open>now2\<close>.
\<close>

definition initBlockchain :: "string \<Rightarrow> world \<Rightarrow> world" where
  "initBlockchain uuid w =
     (let genesisBlock = \<lparr>ID = uuid,
            Timestamp = ''2024-03-21 00:00:00'',
            Data = ''Genesis Block'',
            PrevHash = '''',
            Hash = calculateHash ''genesisHash'' ''2024-03-21 00:00:00'' ''Genesis Block'' ''''\<rparr>
      in w\<lparr>blockchain := (blockchain w)\<lparr>Chain := Chain (blockchain w) @ [genesisBlock]\<rparr>\<rparr>)"

definition mineBlock :: "string \<Rightarrow> string \<Rightarrow> string \<Rightarrow> string \<Rightarrow> world \<Rightarrow> abort + Block \<times> world" where
  "mineBlock uuid now1 now2 nodeID w =
     (if Chain (blockchain w) = [] then Inl PanicIndexOutOfRange
      else
        let prevBlock = Chain (blockchain w) ! (length (Chain (blockchain w)) - 1);
            newBlock = \<lparr>ID = uuid,
              Timestamp = now1,
              Data = ''Data for Node '' @ nodeID,
              PrevHash = Hash prevBlock,
              Hash = calculateHash (Hash prevBlock) now2 (''Data for Node '' @ nodeID) (Hash prevBlock)\<rparr>;
            w1 = w\<lparr>blockchain := (blockchain w)\<lparr>Chain := Chain (blockchain w) @ [newBlock]\<rparr>\<rparr>
        in Inr (newBlock, storeBlockData newBlock nodeID w1))"

text \<open>
  A run of calls of \<^verbatim>\<open>mineBlock\<close>, one per element: the UUID drawn, the two clock
  readings and the argument of the call. A panic ends the run.
\<close>

record call =
  uuid :: string
  now1 :: string
  now2 :: string
  arg :: string

fun mineBlocks :: "call list \<Rightarrow> world \<Rightarrow> abort + world" where
  "mineBlocks [] w = Inr w"
| "mineBlocks (c # cs) w =
     (case mineBlock (uuid c) (now1 c) (now2 c) (arg c) w of
        Inl a \<Rightarrow> Inl a
      | Inr (b, w1) \<Rightarrow> mineBlocks cs w1)"

text \<open>The linkage of a chain, by recursion along the sequence.\<close>

fun linked :: "Block list \<Rightarrow> bool" where
  "linked [] = True"
| "linked [b] = True"
| "linked (a # b # bs) = (PrevHash b = Hash a \<and> linked (b # bs))"

section \<open>The node registry\<close>

definition createNodesFile :: "world \<Rightarrow> error option \<times> world" where
  "createNodesFile w = (let emptyNodes = [] in WriteFile nodesFile (marshalNodes emptyNodes) w)"

text \<open>
  \<^verbatim>\<open>loadNodes\<close>: a missing file is created empty and the empty slice returned; any
  other read error, and a decoding error, is returned.
\<close>

definition loadNodes :: "world \<Rightarrow> (error + string list) \<times> world" where
  "loadNodes w =
     (case ReadFile nodesFile w of
        Inl err \<Rightarrow>
          if err = ErrNotExist
          then (case createNodesFile w of
                  (Some err1, w1) \<Rightarrow> (Inl err1, w1)
                | (None, w1) \<Rightarrow> (Inr [], w1))
          else (Inl err, w)
      | Inr fileData \<Rightarrow>
          (case unmarshalNodes fileData of
             Inl err \<Rightarrow> (Inl err, w)
           | Inr nodes \<Rightarrow> (Inr nodes, w)))"

definition saveNodes :: "string list \<Rightarrow> world \<Rightarrow> error option \<times> world" where
  "saveNodes nodes w = WriteFile nodesFile (marshalNodes nodes) w"

definition registerNodeWithDiscovery :: "string \<Rightarrow> world \<Rightarrow> error option \<times> world" where
  "registerNodeWithDiscovery nodeID w =
     (case loadNodes w of
        (Inl err, w1) \<Rightarrow> (Some err, w1)
      | (Inr nodes, w1) \<Rightarrow> saveNodes (nodes @ [nodeID]) w1)"

section \<open>The broadcaster\<close>

text \<open>
  \<^verbatim>\<open>syncBlock\<close> of the hash-based program: the registry is loaded and
  \<^verbatim>\<open>storeBlockData\<close> is called for every entry, in order. \<^verbatim>\<open>storeBlockData\<close> returns
  nothing, so the loop has no way to stop early.
\<close>

fun storeForAll :: "Block \<Rightarrow> string list \<Rightarrow> world \<Rightarrow> world" where
  "storeForAll newBlock [] w = w"
| "storeForAll newBlock (node # otherNodes) w =
     storeForAll newBlock otherNodes (storeBlockData newBlock node w)"

definition syncBlock :: "Block \<Rightarrow> world \<Rightarrow> error option \<times> world" where
  "syncBlock newBlock w =
     (case loadNodes w of
        (Inl err, w1) \<Rightarrow> (Some err, w1)
      | (Inr otherNodes, w1) \<Rightarrow> (None, storeForAll newBlock otherNodes w1))"

text \<open>
  \<^verbatim>\<open>syncBlock\<close> of the earlier program of the source file posts the serialized block
  to \<^verbatim>\<open>http://<node>:8080/sync\<close> for every entry. The network is a parameter: the set
  of URLs whose request fails. The result lists the requests made, in order: the URL,
  the body and whether the request failed. A failure is logged and the loop goes on.
  The block of that program has an index in place of the ID; its type is left open.
\<close>

fun postToAll :: "string set \<Rightarrow> 'b \<Rightarrow> string list \<Rightarrow> world \<Rightarrow> (string \<times> 'b \<times> bool) list \<times> world" where
  "postToAll down blockBytes [] w = ([], w)"
| "postToAll down blockBytes (node # otherNodes) w =
     (let url = ''http://'' @ node @ '':8080/sync'';
          failed = (url \<in> down);
          w1 = (if failed then Printf ''Error syncing with node '' w else w);
          (posts, w2) = postToAll down blockBytes otherNodes w1
      in ((url, blockBytes, failed) # posts, w2))"

definition syncBlockHTTP :: "string set \<Rightarrow> 'b \<Rightarrow> world \<Rightarrow> error option \<times> (string \<times> 'b \<times> bool) list \<times> world" where
  "syncBlockHTTP down newBlock w =
     (let blockBytes = newBlock
      in case loadNodes w of
           (Inl err, w1) \<Rightarrow> (Some err, [], w1)
         | (Inr otherNodes, w1) \<Rightarrow> (None, postToAll down blockBytes otherNodes w1))"

section \<open>The handler of GET /chain\<close>

datatype body = ErrorJSON string | ChainJSON "Block list"

datatype response = Response nat body

definition getPrimaryNodes :: "world \<Rightarrow> (abort + string) \<times> world" where
  "getPrimaryNodes w =
     (case loadNodes w of
        (Inl err, w1) \<Rightarrow> (Inl Fatal, Printf ''Error loading nodes: '' w1)
      | (Inr nodes, w1) \<Rightarrow>
          if length nodes = 0 then (Inl PanicIndexOutOfRange, w1)
          else (Inr (nodes ! (length nodes - 1)), w1))"

definition readBlockchainData :: "world \<Rightarrow> (abort + (error + Block list)) \<times> world" where
  "readBlockchainData w =
     (case getPrimaryNodes w of
        (Inl a, w1) \<Rightarrow> (Inl a, w1)
      | (Inr primary, w1) \<Rightarrow>
          (case ReadFile (dataDirectory @ primary @ ''.json'') w1 of
             Inl err \<Rightarrow> (Inr (Inl err), w1)
           | Inr data \<Rightarrow> (Inr (unmarshalBlocks data), w1)))"

text \<open>
  The handler either ends the process or the request without a response (\<open>Inl\<close>), or
  answers with a status and a JSON body.
\<close>

definition getChain :: "world \<Rightarrow> (abort + response) \<times> world" where
  "getChain w =
     (case readBlockchainData w of
        (Inl a, w1) \<Rightarrow> (Inl a, w1)
      | (Inr (Inl err), w1) \<Rightarrow>
          (Inr (Response 500 (ErrorJSON ''Failed to read blockchain data'')),
           Printf ''Error reading blockchain data: '' w1)
      | (Inr (Inr blockchainData), w1) \<Rightarrow> (Inr (Response 200 (ChainJSON blockchainData)), w1))"

section \<open>Example states\<close>

text \<open>
  A process that has just started in a working directory that holds nothing but the
  empty directory \<^verbatim>\<open>data\<close>: the chain is \<^verbatim>\<open>nil\<close>, nothing is logged, there is no
  file, and files can be created, read and written in both directories. Neither
  directory holds a link, so the paths used below (\<^verbatim>\<open>nodes.json\<close> and
  \<^verbatim>\<open>./data/<id>.json\<close> for an id without a slash) name different files; each file is
  called by its path.
\<close>

definition fresh :: world where
  "fresh = \<lparr>blockchain = \<lparr>Chain = []\<rparr>, resolve = (\<lambda>filename. filename), files = Map.empty,
             unreadable = {}, unwritable = {}, leftover = (\<lambda>f. Untouched), logged = []\<rparr>"

definition uuid0 :: string where
  "uuid0 = ''6ba7b80f-9dad-41d1-80b4-00c04fd430c8''"

definition callA :: call where
  "callA = \<lparr>uuid = ''6ba7b810-9dad-41d1-80b4-00c04fd430c8'',
             now1 = ''2024-03-21 10:00:00'', now2 = ''2024-03-21 10:00:00'', arg = ''node-1''\<rparr>"

definition callB :: call where
  "callB = \<lparr>uuid = ''6ba7b811-9dad-41d1-80b4-00c04fd430c8'',
             now1 = ''2024-03-21 10:00:10'', now2 = ''2024-03-21 10:00:10'', arg = ''node-1''\<rparr>"

text \<open>
  The block that \<^verbatim>\<open>mineBlock("node-1")\<close> makes on the genesis block when both clock
  readings are \<^verbatim>\<open>2024-03-21 10:00:00\<close>, and the block of a second call ten seconds later.
\<close>

definition genesisHash :: string where
  "genesisHash = calculateHash ''genesisHash'' ''2024-03-21 00:00:00'' ''Genesis Block'' []"

definition blockA :: Block where
  "blockA = \<lparr>ID = uuid callA, Timestamp = now1 callA, Data = ''Data for Node node-1'',
              PrevHash = genesisHash,
              Hash = calculateHash genesisHash (now2 callA) ''Data for Node node-1'' genesisHash\<rparr>"

definition blockB :: Block where
  "blockB = \<lparr>ID = uuid callB, Timestamp = now1 callB, Data = ''Data for Node node-1'',
              PrevHash = Hash blockA,
              Hash = calculateHash (Hash blockA) (now2 callB) ''Data for Node node-1'' (Hash blockA)\<rparr>"

text \<open>
  A second process with the same node ID mines on its own genesis block in the same
  second, and its clock moves on to the next second between the two readings.
\<close>

definition uuid1 :: string where
  "uuid1 = ''6ba7b812-9dad-41d1-80b4-00c04fd430c8''"

definition callTick :: call where
  "callTick = \<lparr>uuid = ''6ba7b813-9dad-41d1-80b4-00c04fd430c8'',
                now1 = ''2024-03-21 10:00:00'', now2 = ''2024-03-21 10:00:01'', arg = ''node-1''\<rparr>"

definition blockT :: Block where
  "blockT = \<lparr>ID = uuid callTick, Timestamp = now1 callTick, Data = ''Data for Node node-1'',
              PrevHash = genesisHash,
              Hash = calculateHash genesisHash (now2 callTick) ''Data for Node node-1'' genesisHash\<rparr>"

text \<open>The block a call of \<^verbatim>\<open>mineBlock\<close> returned, if it returned.\<close>

definition mined :: "abort + Block \<times> world \<Rightarrow> Block option" where
  "mined r = (case r of Inl a \<Rightarrow> None | Inr (b, w) \<Rightarrow> Some b)"

text \<open>
  A process started with \<^verbatim>\<open>--NODE_ID\<close> set to the two bytes \<^verbatim>\<open>6E FF\<close>, the letter
  \<^verbatim>\<open>n\<close> and a byte that is not UTF-8, and the block it mines on the genesis block.
\<close>

definition nodeX :: string where
  "nodeX = [CHR ''n'', CHR 0xFF]"

definition callX :: call where
  "callX = \<lparr>uuid = ''6ba7b814-9dad-41d1-80b4-00c04fd430c8'',
             now1 = ''2024-03-21 10:00:20'', now2 = ''2024-03-21 10:00:20'', arg = nodeX\<rparr>"

definition blockX :: Block where
  "blockX = \<lparr>ID = uuid callX, Timestamp = now1 callX, Data = ''Data for Node '' @ nodeX,
              PrevHash = genesisHash,
              Hash = calculateHash genesisHash (now2 callX) (''Data for Node '' @ nodeX) genesisHash\<rparr>"

text \<open>A data file of peer \<^verbatim>\<open>node-2\<close> that lists the same block twice.\<close>

definition twice :: world where
  "twice = fresh\<lparr>files := [blockFile ''node-2'' \<mapsto> Blocks [blockA, blockA]]\<rparr>"

text \<open>A data file of peer \<^verbatim>\<open>node-2\<close> that holds two blocks, written by two stores.\<close>

definition stored2 :: world where
  "stored2 = storeBlockData blockB ''node-2'' (storeBlockData blockA ''node-2'' fresh)"

text \<open>
  The same file on a full disk: the file is opened and truncated, and the write
  fails.
\<close>

definition diskFull :: world where
  "diskFull = stored2\<lparr>unwritable := {blockFile ''node-2''}, leftover := (\<lambda>f. Torn)\<rparr>"

text \<open>
  Registries: a file that is not JSON, a file that cannot be read, a directory in
  which the missing file cannot be created, an empty registry, and the registry of
  the two peers \<^verbatim>\<open>node-2\<close> and \<^verbatim>\<open>node-3\<close>.
\<close>

definition garbled :: world where
  "garbled = fresh\<lparr>files := [nodesFile \<mapsto> Garbage]\<rparr>"

definition locked :: world where
  "locked = fresh\<lparr>files := [nodesFile \<mapsto> Nodes [''node-1'']], unreadable := {nodesFile}\<rparr>"

definition readOnly :: world where
  "readOnly = fresh\<lparr>unwritable := {nodesFile}\<rparr>"

definition nobody :: world where
  "nobody = fresh\<lparr>files := [nodesFile \<mapsto> Nodes []]\<rparr>"

definition twoPeers :: world where
  "twoPeers = fresh\<lparr>files := [nodesFile \<mapsto> Nodes [''node-2'', ''node-3'']]\<rparr>"

text \<open>The same registry where the data file of one peer cannot be opened for writing.\<close>

definition peerDown :: "string \<Rightarrow> world" where
  "peerDown p = twoPeers\<lparr>unwritable := {blockFile p}\<rparr>"

text \<open>
  A working directory with an empty registry, seen from a process whose node ID is
  \<^verbatim>\<open>../nodes\<close>: its data file \<^verbatim>\<open>./data/../nodes.json\<close> is the nodes file.
\<close>

definition aliased :: world where
  "aliased = fresh\<lparr>resolve := (\<lambda>filename. if filename = blockFile ''../nodes'' then nodesFile else filename),
                   files := [nodesFile \<mapsto> Nodes []]\<rparr>"

section \<open>Properties of JSON strings\<close>

lemma first_Some:
  "first b = Some (sz, lo, hi) \<Longrightarrow> (sz = 2 \<or> sz = 3 \<or> sz = 4) \<and> 0xC2 \<le> b"
  by (simp add: first_def split: if_splits)


lemma runeSize_Cons:
  "runeSize (b # r) =
     (case first (of_char b) of
        None \<Rightarrow> 0
      | Some (sz, lo, hi) \<Rightarrow>
          if length (b # r) < sz then 0
          else if of_char ((b # r) ! 1) < lo \<or> hi < (of_char ((b # r) ! 1) :: nat) then 0
          else if sz \<le> 2 then 2
          else if of_char ((b # r) ! 2) < (0x80 :: nat) \<or> (0xBF :: nat) < of_char ((b # r) ! 2) then 0
          else if sz \<le> 3 then 3
          else if of_char ((b # r) ! 3) < (0x80 :: nat) \<or> (0xBF :: nat) < of_char ((b # r) ! 3) then 0
          else 4)"
  by (simp add: runeSize_def)

lemma runeSize_Nil [simp]: "runeSize [] = 0"
  by (simp add: runeSize_def)

lemma runeSize_Some:
  assumes "first (of_char b) = Some (sz, lo, hi)" "runeSize (b # r) \<noteq> 0"
  shows "runeSize (b # r) = sz \<and> sz \<le> Suc (length r)"
proof -
  from first_Some [OF assms(1)] have "sz = 2 \<or> sz = 3 \<or> sz = 4" by simp
  then show ?thesis
  proof (elim disjE)
    assume "sz = 2"
    with assms show ?thesis by (simp add: runeSize_Cons Suc_le_eq split: if_splits)
  next
    assume "sz = 3"
    with assms show ?thesis by (simp add: runeSize_Cons split: if_splits)
  next
    assume "sz = 4"
    with assms show ?thesis by (simp add: runeSize_Cons split: if_splits)
  qed
qed

lemma runeSize_None: "first (of_char b) = None \<Longrightarrow> runeSize (b # r) = 0"
  by (simp add: runeSize_Cons)

lemma runeSize_le: "runeSize s \<le> length s"
proof (cases s)
  case Nil
  then show ?thesis by simp
next
  case (Cons b r)
  show ?thesis
  proof (cases "runeSize (b # r) = 0")
    case True
    with Cons show ?thesis by simp
  next
    case False
    then obtain sz lo hi where "first (of_char b) = Some (sz, lo, hi)"
      using runeSize_None [of b r] by (cases "first (of_char b)") auto
    from runeSize_Some [OF this False] Cons show ?thesis by simp
  qed
qed

lemma runeSize_head: "runeSize (b # r) \<noteq> 0 \<Longrightarrow> \<not> of_char b < (0x80 :: nat)"
proof -
  assume a: "runeSize (b # r) \<noteq> 0"
  then obtain sz lo hi where "first (of_char b) = Some (sz, lo, hi)"
    using runeSize_None [of b r] by (cases "first (of_char b)") auto
  from first_Some [OF this] show ?thesis by simp
qed

lemma runeSize_prefix:
  assumes "runeSize s \<noteq> 0"
  shows "runeSize (take (runeSize s) s @ t) = runeSize s"
proof (cases s)
  case Nil
  with assms show ?thesis by simp
next
  case (Cons b r)
  with assms have a: "runeSize (b # r) \<noteq> 0" by simp
  then obtain sz lo hi where f: "first (of_char b) = Some (sz, lo, hi)"
    using runeSize_None [of b r] by (cases "first (of_char b)") auto
  from runeSize_Some [OF f a] have n: "runeSize (b # r) = sz" and l: "sz \<le> Suc (length r)"
    by simp_all
  from first_Some [OF f] have sz: "sz = 2 \<or> sz = 3 \<or> sz = 4" by simp
  let ?p = "take (sz - 1) r @ t"
  have c: "take sz (b # r) @ t = b # ?p"
    using sz by (auto simp: take_Cons')
  have nth: "\<And>i. i < sz - 1 \<Longrightarrow> ?p ! i = r ! i"
    using l by (simp add: nth_append)
  have len: "sz \<le> Suc (length ?p)"
    using l by simp
  have "runeSize (b # ?p) = sz"
    using sz
  proof (elim disjE)
    assume "sz = 2"
    with a n f nth [of 0] len show ?thesis
      by (simp add: runeSize_Cons split: if_splits)
  next
    assume "sz = 3"
    with a n f nth [of 0] nth [of "Suc 0"] len show ?thesis
      by (simp add: runeSize_Cons numeral_2_eq_2 split: if_splits)
  next
    assume "sz = 4"
    with a n f nth [of 0] nth [of "Suc 0"] nth [of "Suc (Suc 0)"] len show ?thesis
      by (simp add: runeSize_Cons numeral_2_eq_2 numeral_3_eq_3 split: if_splits)
  qed
  with c n Cons show ?thesis by simp
qed


lemma coerce_small [simp]: "of_char b < (0x80 :: nat) \<Longrightarrow> coerce (b # s) = b # coerce s"
  by (simp add: coerce.simps(2))

lemma coerce_invalid:
  "\<not> of_char b < (0x80 :: nat) \<Longrightarrow> runeSize (b # s) = 0 \<Longrightarrow>
   coerce (b # s) = CHR 0xEF # CHR 0xBF # CHR 0xBD # coerce s"
  by (simp add: coerce.simps(2))

lemma coerce_valid:
  "runeSize (b # s) \<noteq> 0 \<Longrightarrow>
   coerce (b # s) = take (runeSize (b # s)) (b # s) @ coerce (drop (runeSize (b # s)) (b # s))"
  using runeSize_head [of b s] by (simp add: coerce.simps(2))

lemma coerce_rune:
  assumes "runeSize s \<noteq> 0"
  shows "coerce (take (runeSize s) s @ t) = take (runeSize s) s @ coerce t"
proof -
  let ?n = "runeSize s"
  let ?p = "take ?n s"
  from assms obtain b r where s: "s = b # r"
    by (cases s) auto
  from assms obtain m where m: "?n = Suc m"
    by (cases ?n) auto
  have c: "?p @ t = b # (take m r @ t)"
    using s m by simp
  have l: "length ?p = ?n"
    using runeSize_le [of s] by simp
  have p: "runeSize (?p @ t) = ?n"
    by (rule runeSize_prefix [OF assms])
  then have "runeSize (b # (take m r @ t)) \<noteq> 0"
    using c assms by simp
  from coerce_valid [OF this]
  have "coerce (?p @ t) = take (runeSize (?p @ t)) (?p @ t) @ coerce (drop (runeSize (?p @ t)) (?p @ t))"
    by (simp only: c)
  also have "\<dots> = take ?n (?p @ t) @ coerce (drop ?n (?p @ t))"
    by (simp only: p)
  also have "take ?n (?p @ t) = ?p"
    using l by simp
  also have "drop ?n (?p @ t) = t"
    using l by simp
  finally show ?thesis .
qed

lemma runeSize_replacement: "runeSize (CHR 0xEF # CHR 0xBF # CHR 0xBD # t) = 3"
  by (simp add: runeSize_Cons first_def)

lemma coerce_replacement:
  "coerce (CHR 0xEF # CHR 0xBF # CHR 0xBD # t) = CHR 0xEF # CHR 0xBF # CHR 0xBD # coerce t"
  by (simp add: coerce_valid runeSize_replacement)

lemma coerce_idem [simp]: "coerce (coerce s) = coerce s"
proof (induction s rule: coerce.induct)
  case 1
  then show ?case by simp
next
  case (2 b s)
  show ?case
  proof (cases "of_char b < (0x80 :: nat)")
    case True
    with 2(1) show ?thesis by simp
  next
    case False
    show ?thesis
    proof (cases "runeSize (b # s) = 0")
      case True
      from 2(2) [OF False True] show ?thesis
        by (simp add: coerce_invalid [OF False True] coerce_replacement)
    next
      case n: False
      have "coerce (b # s) = take (runeSize (b # s)) (b # s) @ coerce (drop (runeSize (b # s)) (b # s))"
        by (rule coerce_valid [OF n])
      moreover have "coerce (take (runeSize (b # s)) (b # s) @ coerce (drop (runeSize (b # s)) (b # s))) =
          take (runeSize (b # s)) (b # s) @ coerce (coerce (drop (runeSize (b # s)) (b # s)))"
        by (rule coerce_rune [OF n])
      ultimately show ?thesis
        using 2(3) [OF False n] by simp
    qed
  qed
qed

lemma coerce_ascii: "\<forall>c \<in> set s. of_char c < (0x80 :: nat) \<Longrightarrow> coerce s = s"
  by (induction s) simp_all

lemma coerce_ascii_append:
  "\<forall>c \<in> set a. of_char c < (0x80 :: nat) \<Longrightarrow> coerce (a @ s) = a @ coerce s"
  by (induction a) simp_all

text \<open>
  Evaluation on given bytes: an invalid byte; an ASCII string; and two valid
  sequences followed by the encoding of a surrogate and by a truncated sequence of
  four bytes, each of whose bytes is replaced.
\<close>

lemmas coerce_eval = coerce_small coerce_invalid coerce_valid runeSize_Cons first_def

lemma coerce_invalid_byte: "coerce [CHR ''n'', CHR 0xFF] = [CHR ''n'', CHR 0xEF, CHR 0xBF, CHR 0xBD]"
  by (simp add: coerce_eval)

lemma coerce_ascii_string: "coerce ''node-2'' = ''node-2''"
  by simp

lemma coerce_mixed:
  "coerce [CHR 0xC3, CHR 0xA9, CHR 0xE2, CHR 0x82, CHR 0xAC, CHR 0xED, CHR 0xA0, CHR 0x80, CHR 0xF0, CHR 0x9F]
   = [CHR 0xC3, CHR 0xA9, CHR 0xE2, CHR 0x82, CHR 0xAC, CHR 0xEF, CHR 0xBF, CHR 0xBD, CHR 0xEF, CHR 0xBF, CHR 0xBD,
      CHR 0xEF, CHR 0xBF, CHR 0xBD, CHR 0xEF, CHR 0xBF, CHR 0xBD, CHR 0xEF, CHR 0xBF, CHR 0xBD]"
  by (simp add: coerce_eval)

lemma ID_coerceBlock [simp]:
  "ID (coerceBlock b) = coerce (ID b)" "Timestamp (coerceBlock b) = coerce (Timestamp b)"
  "Data (coerceBlock b) = coerce (Data b)" "PrevHash (coerceBlock b) = coerce (PrevHash b)"
  "Hash (coerceBlock b) = coerce (Hash b)"
  by (simp_all add: coerceBlock_def)

lemma coerceBlock_idem [simp]: "coerceBlock (coerceBlock b) = coerceBlock b"
  by (simp add: coerceBlock_def)

lemma coerceBlock_fixed:
  "(coerceBlock b = b) =
     (coerce (ID b) = ID b \<and> coerce (Timestamp b) = Timestamp b \<and> coerce (Data b) = Data b
      \<and> coerce (PrevHash b) = PrevHash b \<and> coerce (Hash b) = Hash b)"
  by (cases b) (auto simp: coerceBlock_def)

lemma map_coerceBlock_idem [simp]: "map coerceBlock (map coerceBlock bs) = map coerceBlock bs"
  by (induction bs) simp_all

lemma map_coerce_idem [simp]: "map coerce (map coerce ns) = map coerce ns"
  by (induction ns) simp_all

lemma unmarshalBlocks_coerced: "unmarshalBlocks data = Inr old \<Longrightarrow> map coerceBlock old = old"
  by (cases data rule: unmarshalBlocks.cases) auto

lemma unmarshalNodes_coerced: "unmarshalNodes data = Inr nodes \<Longrightarrow> map coerce nodes = nodes"
  by (cases data rule: unmarshalNodes.cases) auto

lemma unmarshalBlocks_Inl: "unmarshalBlocks data = Inl e \<Longrightarrow> e = ErrSyntax"
  by (cases data rule: unmarshalBlocks.cases) auto

lemma unmarshalNodes_Inl: "unmarshalNodes data = Inl e \<Longrightarrow> e = ErrSyntax"
  by (cases data rule: unmarshalNodes.cases) auto

lemma unmarshal_marshalBlocks [simp]:
  "unmarshalBlocks (marshalBlocks bs) = Inr (map coerceBlock bs)"
  by (simp add: marshalBlocks_def)

lemma unmarshal_marshalNodes [simp]:
  "unmarshalNodes (marshalNodes ns) = Inr (map coerce ns)"
  by (simp add: marshalNodes_def)

lemma filter_ID_coerced:
  "map coerceBlock old = old \<Longrightarrow> map coerceBlock (filter (\<lambda>x. ID x \<noteq> i) old) = filter (\<lambda>x. ID x \<noteq> i) old"
  by (induction old) auto

section \<open>Properties of the files\<close>

lemma fst_WriteFile:
  "fst (WriteFile filename data w) = (if resolve w filename \<in> unwritable w then Some ErrIO else None)"
  by (simp add: WriteFile_def Let_def)

lemma files_WriteFile:
  "files (snd (WriteFile filename data w)) =
     (if resolve w filename \<in> unwritable w
      then (case leftover w (resolve w filename) of
              Untouched \<Rightarrow> files w
            | Torn \<Rightarrow> (files w)(resolve w filename \<mapsto> Garbage)
            | Complete \<Rightarrow> (files w)(resolve w filename \<mapsto> data))
      else (files w)(resolve w filename \<mapsto> data))"
  by (simp add: WriteFile_def Let_def split: leftover.splits)

lemma WriteFile_env [simp]:
  "resolve (snd (WriteFile filename data w)) = resolve w"
  "unreadable (snd (WriteFile filename data w)) = unreadable w"
  "unwritable (snd (WriteFile filename data w)) = unwritable w"
  "leftover (snd (WriteFile filename data w)) = leftover w"
  "blockchain (snd (WriteFile filename data w)) = blockchain w"
  "logged (snd (WriteFile filename data w)) = logged w"
  by (simp_all add: WriteFile_def Let_def split: leftover.splits)

lemma Printf_env [simp]:
  "resolve (Printf l w) = resolve w"
  "files (Printf l w) = files w"
  "unreadable (Printf l w) = unreadable w"
  "unwritable (Printf l w) = unwritable w"
  "leftover (Printf l w) = leftover w"
  "blockchain (Printf l w) = blockchain w"
  "logged (Printf l w) = logged w @ [l]"
  by (simp_all add: Printf_def)

lemma WriteFile_Printf:
  "WriteFile filename data (Printf l w) =
     (fst (WriteFile filename data w), Printf l (snd (WriteFile filename data w)))"
  by (simp add: WriteFile_def Printf_def Let_def split: leftover.splits)

lemma ReadFile_NotExist:
  "(ReadFile f w = Inl ErrNotExist) = (resolve w f \<notin> unreadable w \<and> files w (resolve w f) = None)"
  by (simp add: ReadFile_def Let_def split: option.splits)

lemma ReadFile_Inl:
  "ReadFile f w = Inl e \<Longrightarrow> e \<noteq> ErrNotExist \<Longrightarrow> resolve w f \<in> unreadable w \<and> e = ErrIO"
  by (simp add: ReadFile_def Let_def split: option.splits if_splits)

lemma ReadFile_Inr:
  "(ReadFile f w = Inr data) = (resolve w f \<notin> unreadable w \<and> files w (resolve w f) = Some data)"
  by (simp add: ReadFile_def Let_def split: option.splits)

lemma ReadFile_cong:
  "resolve w f = resolve w' f' \<Longrightarrow> unreadable w = unreadable w' \<Longrightarrow>
   files w (resolve w f) = files w' (resolve w' f') \<Longrightarrow> ReadFile f w = ReadFile f' w'"
  by (simp add: ReadFile_def Let_def)

section \<open>Properties of the store\<close>

lemma removeSameID_filter:
  "removeSameID block blocks acc = acc @ filter (\<lambda>b. ID b \<noteq> ID block) blocks"
  by (induction blocks arbitrary: acc) auto

lemma loadBlocks_alt:
  "loadBlocks p w =
     (if resolve w (blockFile p) \<in> unreadable w then Inl ErrIO
      else case files w (resolve w (blockFile p)) of
             None \<Rightarrow> Inr []
           | Some data \<Rightarrow> unmarshalBlocks data)"
  by (simp add: loadBlocks_def ReadFile_def Let_def split: option.splits)

lemma loadBlocks_coerced: "loadBlocks p w = Inr old \<Longrightarrow> map coerceBlock old = old"
  by (auto simp: loadBlocks_alt unmarshalBlocks_coerced split: if_splits option.splits)

lemma loadBlocks_Inl: "loadBlocks p w = Inl e \<Longrightarrow> e = ErrIO \<or> e = ErrSyntax"
  by (auto simp: loadBlocks_alt split: option.splits if_splits dest: unmarshalBlocks_Inl)

text \<open>
  What one call does, by what it found: the sequence \<open>old\<close>, a file that does not
  decode, or a file that cannot be read.
\<close>

lemma storeBlockData_alt:
  "storeBlockData b p w =
     (case loadBlocks p w of
        Inr old \<Rightarrow>
          (case WriteFile (blockFile p) (marshalBlocks (filter (\<lambda>x. ID x \<noteq> ID b) old @ [b])) w of
             (Some err, w2) \<Rightarrow> Printf ''Error writing block data to file: '' w2
           | (None, w2) \<Rightarrow> w2)
      | Inl e \<Rightarrow>
          if e = ErrSyntax then Printf ''Error unmarshalling block data: '' w
          else (case WriteFile (blockFile p) (marshalBlocks [b]) (Printf ''Error reading existing block data: '' w) of
                  (Some err, w2) \<Rightarrow> Printf ''Error writing block data to file: '' w2
                | (None, w2) \<Rightarrow> w2))"
proof (cases "ReadFile (blockFile p) w")
  case (Inl e)
  then have "e = ErrNotExist \<or> e = ErrIO"
    by (auto simp: ReadFile_def Let_def split: if_splits option.splits)
  with Inl show ?thesis
    by (auto simp: storeBlockData_def loadBlocks_def Let_def removeSameID_filter
        blockFile_def [symmetric])
next
  case (Inr data)
  show ?thesis
  proof (cases "unmarshalBlocks data")
    case (Inl e)
    then have "e = ErrSyntax"
      by (rule unmarshalBlocks_Inl)
    with Inl Inr show ?thesis
      by (simp add: storeBlockData_def loadBlocks_def Let_def blockFile_def [symmetric])
  next
    case old: (Inr old)
    with Inr show ?thesis
      by (simp add: storeBlockData_def loadBlocks_def Let_def removeSameID_filter
          blockFile_def [symmetric])
  qed
qed

lemma storeBlockData_env [simp]:
  "resolve (storeBlockData b p w) = resolve w"
  "unreadable (storeBlockData b p w) = unreadable w"
  "unwritable (storeBlockData b p w) = unwritable w"
  "leftover (storeBlockData b p w) = leftover w"
  "blockchain (storeBlockData b p w) = blockchain w"
  by (simp_all add: storeBlockData_alt WriteFile_Printf case_prod_unfold fst_WriteFile
      split: sum.splits)

lemma files_storeBlockData:
  "files (storeBlockData b p w) =
     (case loadBlocks p w of
        Inr old \<Rightarrow>
          files (snd (WriteFile (blockFile p) (marshalBlocks (filter (\<lambda>x. ID x \<noteq> ID b) old @ [b])) w))
      | Inl e \<Rightarrow>
          if e = ErrSyntax then files w
          else files (snd (WriteFile (blockFile p) (marshalBlocks [b]) w)))"
  by (simp add: storeBlockData_alt WriteFile_Printf case_prod_unfold fst_WriteFile
      split: sum.splits)

lemma logged_storeBlockData:
  "logged (storeBlockData b p w) =
     (case loadBlocks p w of
        Inr old \<Rightarrow> logged w @
          (if resolve w (blockFile p) \<in> unwritable w then [''Error writing block data to file: ''] else [])
      | Inl e \<Rightarrow>
          if e = ErrSyntax then logged w @ [''Error unmarshalling block data: '']
          else logged w @ [''Error reading existing block data: ''] @
            (if resolve w (blockFile p) \<in> unwritable w then [''Error writing block data to file: ''] else []))"
  by (simp add: storeBlockData_alt WriteFile_Printf case_prod_unfold fst_WriteFile
      split: sum.splits)

text \<open>Two paths of one file are one peer to the store.\<close>

lemma loadBlocks_cong:
  "resolve w (blockFile q) = resolve w (blockFile p) \<Longrightarrow> loadBlocks q w = loadBlocks p w"
  by (simp add: loadBlocks_alt)

lemma WriteFile_cong:
  "resolve w f = resolve w g \<Longrightarrow> WriteFile f data w = WriteFile g data w"
  by (simp add: WriteFile_def Let_def)

lemma storeBlockData_cong:
  assumes "resolve w (blockFile q) = resolve w (blockFile p)"
  shows "storeBlockData b q w = storeBlockData b p w"
proof -
  have "\<And>d v. resolve v = resolve w \<Longrightarrow> WriteFile (blockFile q) d v = WriteFile (blockFile p) d v"
    using assms by (simp add: WriteFile_def Let_def)
  then show ?thesis
    by (simp add: storeBlockData_alt loadBlocks_cong [OF assms] split: sum.splits)
qed

lemma storeBlockData_other:
  "f \<noteq> resolve w (blockFile p) \<Longrightarrow> files (storeBlockData b p w) f = files w f"
  by (simp add: files_storeBlockData files_WriteFile split: sum.splits leftover.splits)

lemma storeBlockData_local:
  assumes "files w (resolve w (blockFile p)) = files w' (resolve w (blockFile p))"
    "resolve w = resolve w'" "unreadable w = unreadable w'" "unwritable w = unwritable w'"
    "leftover w = leftover w'"
  shows "files (storeBlockData b p w) (resolve w (blockFile p)) =
         files (storeBlockData b p w') (resolve w (blockFile p))"
proof -
  have "loadBlocks p w = loadBlocks p w'"
    using assms by (simp add: loadBlocks_alt)
  with assms show ?thesis
    by (simp add: files_storeBlockData files_WriteFile split: sum.splits leftover.splits)
qed

lemma storeBlockData_success:
  assumes "logged (storeBlockData b p w) = logged w"
  shows "resolve w (blockFile p) \<notin> unreadable w \<and> resolve w (blockFile p) \<notin> unwritable w
     \<and> (\<exists>old. loadBlocks p w = Inr old)"
  using assms
  by (auto simp: logged_storeBlockData loadBlocks_alt split: option.splits sum.splits if_splits)

lemma storeBlockData_stores:
  assumes "loadBlocks p w = Inr old" "resolve w (blockFile p) \<notin> unwritable w"
  shows "files (storeBlockData b p w) =
           (files w)(resolve w (blockFile p) \<mapsto> marshalBlocks (filter (\<lambda>x. ID x \<noteq> ID b) old @ [b]))"
    and "loadBlocks p (storeBlockData b p w) = Inr (filter (\<lambda>x. ID x \<noteq> ID b) old @ [coerceBlock b])"
    and "logged (storeBlockData b p w) = logged w"
proof -
  show f: "files (storeBlockData b p w) =
           (files w)(resolve w (blockFile p) \<mapsto> marshalBlocks (filter (\<lambda>x. ID x \<noteq> ID b) old @ [b]))"
    using assms by (simp add: files_storeBlockData files_WriteFile)
  from assms(1) have "resolve w (blockFile p) \<notin> unreadable w"
    by (simp add: loadBlocks_alt split: if_splits)
  then show "loadBlocks p (storeBlockData b p w) = Inr (filter (\<lambda>x. ID x \<noteq> ID b) old @ [coerceBlock b])"
    using filter_ID_coerced [OF loadBlocks_coerced [OF assms(1)]]
    by (simp add: loadBlocks_alt f)
  show "logged (storeBlockData b p w) = logged w"
    using assms by (simp add: logged_storeBlockData)
qed

text \<open>
  A failed write: the file is left as it was, or torn, or written in full.
\<close>

lemma storeBlockData_fails:
  assumes "loadBlocks p w = Inr old" "resolve w (blockFile p) \<in> unwritable w"
  shows "loadBlocks p (storeBlockData b p w) =
     (case leftover w (resolve w (blockFile p)) of
        Untouched \<Rightarrow> Inr old
      | Torn \<Rightarrow> Inl ErrSyntax
      | Complete \<Rightarrow> Inr (filter (\<lambda>x. ID x \<noteq> ID b) old @ [coerceBlock b]))"
proof -
  from assms(1) have r: "resolve w (blockFile p) \<notin> unreadable w"
    by (simp add: loadBlocks_alt split: if_splits)
  have f: "files (storeBlockData b p w) =
     (case leftover w (resolve w (blockFile p)) of
        Untouched \<Rightarrow> files w
      | Torn \<Rightarrow> (files w)(resolve w (blockFile p) \<mapsto> Garbage)
      | Complete \<Rightarrow> (files w)(resolve w (blockFile p) \<mapsto>
          marshalBlocks (filter (\<lambda>x. ID x \<noteq> ID b) old @ [b])))"
    using assms by (simp add: files_storeBlockData files_WriteFile)
  show ?thesis
  proof (cases "leftover w (resolve w (blockFile p))")
    case Untouched
    with f r assms(1) show ?thesis by (simp add: loadBlocks_alt)
  next
    case Torn
    with f r show ?thesis by (simp add: loadBlocks_alt)
  next
    case Complete
    with f r filter_ID_coerced [OF loadBlocks_coerced [OF assms(1)]] show ?thesis
      by (simp add: loadBlocks_alt)
  qed
qed

lemma filter_twice_ID:
  "coerce (ID b) = ID b \<Longrightarrow>
   filter (\<lambda>x. ID x \<noteq> ID b) (filter (\<lambda>x. ID x \<noteq> ID b) old @ [coerceBlock b]) =
   filter (\<lambda>x. ID x \<noteq> ID b) old"
  by simp

text \<open>
  A second delivery of a block whose ID is valid UTF-8 (the ID of every block of the
  program is a UUID in hex) leaves the files that the first one left, whatever the
  first one found and whether or not its write failed.
\<close>

lemma storeBlockData_twice:
  assumes "coerce (ID b) = ID b"
  shows "files (storeBlockData b p (storeBlockData b p w)) = files (storeBlockData b p w)"
proof (cases "loadBlocks p w")
  case (Inl e)
  show ?thesis
  proof (cases "e = ErrSyntax")
    case True
    with Inl have s: "files (storeBlockData b p w) = files w"
      by (simp add: files_storeBlockData)
    then have "loadBlocks p (storeBlockData b p w) = loadBlocks p w"
      by (simp add: loadBlocks_alt)
    with Inl True s show ?thesis
      by (simp add: files_storeBlockData [of b p "storeBlockData b p w"])
  next
    case False
    with loadBlocks_Inl [OF Inl] have e: "e = ErrIO" by simp
    with Inl have u: "resolve w (blockFile p) \<in> unreadable w"
      by (auto simp: loadBlocks_alt split: if_splits option.splits dest: unmarshalBlocks_Inl)
    then have "loadBlocks p (storeBlockData b p w) = Inl ErrIO"
      by (simp add: loadBlocks_alt)
    with Inl e show ?thesis
      by (simp add: files_storeBlockData [of b p "storeBlockData b p w"])
         (simp add: files_storeBlockData files_WriteFile split: leftover.splits)
  qed
next
  case (Inr old)
  let ?new = "filter (\<lambda>x. ID x \<noteq> ID b) old @ [b]"
  show ?thesis
  proof (cases "resolve w (blockFile p) \<in> unwritable w")
    case False
    from storeBlockData_stores(1,2) [OF Inr False, of b]
    have f: "files (storeBlockData b p w) = (files w)(resolve w (blockFile p) \<mapsto> marshalBlocks ?new)"
      and l: "loadBlocks p (storeBlockData b p w) = Inr (filter (\<lambda>x. ID x \<noteq> ID b) old @ [coerceBlock b])"
      by simp_all
    have "files (storeBlockData b p (storeBlockData b p w)) =
        (files (storeBlockData b p w))(resolve w (blockFile p) \<mapsto>
           marshalBlocks (filter (\<lambda>x. ID x \<noteq> ID b) (filter (\<lambda>x. ID x \<noteq> ID b) old @ [coerceBlock b]) @ [b]))"
      using storeBlockData_stores(1) [OF l, of b] False by simp
    with f assms show ?thesis by simp
  next
    case True
    note l = storeBlockData_fails [OF Inr True, of b]
    show ?thesis
    proof (cases "leftover w (resolve w (blockFile p))")
      case Untouched
      with l Inr True show ?thesis
        by (simp add: files_storeBlockData [of b p "storeBlockData b p w"])
           (simp add: files_storeBlockData files_WriteFile)
    next
      case Torn
      with l Inr True show ?thesis
        by (simp add: files_storeBlockData [of b p "storeBlockData b p w"])
    next
      case Complete
      with l Inr True assms show ?thesis
        by (simp add: files_storeBlockData [of b p "storeBlockData b p w"])
           (simp add: files_storeBlockData files_WriteFile)
    qed
  qed
qed

text \<open>
  The strings of the blocks that the program makes from ASCII inputs are ASCII: a
  hash is sixty-four hex digits.
\<close>

lemma digest_bytes_lt: "\<forall>x \<in> set (digest_bytes d). x < 256"
  by (cases d rule: digest_bytes.cases) (simp add: word_bytes_def)

lemma hexdigit_ascii:
  assumes "n < 16"
  shows "of_char (hexdigit n) < (0x80 :: nat)"
proof -
  have a: "\<forall>c \<in> set ''0123456789abcdef''. of_char c < (0x80 :: nat)"
    by simp
  from assms have "hexdigit n \<in> set ''0123456789abcdef''"
    unfolding hexdigit_def by (intro nth_mem) simp
  with a show ?thesis by blast
qed

lemma sprintf_x_ascii:
  "\<forall>x \<in> set bs. x < 256 \<Longrightarrow> \<forall>c \<in> set (sprintf_x bs). of_char c < (0x80 :: nat)"
  by (induction bs) (auto simp: sprintf_x_def hexbyte_def hexdigit_ascii less_mult_imp_div_less)

lemma coerce_calculateHash [simp]:
  "coerce (calculateHash prevHash timestamp data prevHash2) = calculateHash prevHash timestamp data prevHash2"
  unfolding calculateHash_def Let_def Sum256_def
  by (rule coerce_ascii [OF sprintf_x_ascii [OF digest_bytes_lt]])

lemma fresh_env [simp]:
  "unwritable fresh = {}" "unreadable fresh = {}" "logged fresh = []"
  "files fresh = Map.empty" "blockchain fresh = \<lparr>Chain = []\<rparr>" "resolve fresh f = f"
  "leftover fresh f = Untouched"
  by (simp_all add: fresh_def)

lemma ID_A_B [simp]: "ID blockA \<noteq> ID blockB" "ID blockB \<noteq> ID blockA"
  by (simp_all add: blockA_def blockB_def callA_def callB_def)

lemma coerceBlock_A_B [simp]: "coerceBlock blockA = blockA" "coerceBlock blockB = blockB"
  by (simp_all add: coerceBlock_fixed blockA_def blockB_def callA_def callB_def genesisHash_def)

lemma loadBlocks_fresh [simp]: "loadBlocks p fresh = Inr []"
  by (simp add: loadBlocks_alt)

lemma stored2_load: "loadBlocks ''node-2'' stored2 = Inr [blockA, blockB]"
  by (simp add: stored2_def storeBlockData_stores(2) [where old = "[]"]
                storeBlockData_stores(2) [where old = "[blockA]"])

lemma stored2_env [simp]: "unwritable stored2 = {}" "unreadable stored2 = {}" "logged stored2 = []"
  "resolve stored2 f = f" "leftover stored2 f = Untouched"
  by (simp_all add: stored2_def logged_storeBlockData
      storeBlockData_stores(2) [where old = "[]"])

text \<open>
  C10, as amended. Frame of the hash-based store. A call of \<^verbatim>\<open>storeBlockData\<close> that logs
  no error found the peer's sequence \<open>old\<close> (empty when there was no file) and leaves
  the sequence \<open>new\<close>: \<open>old\<close> without the blocks that carry the new block's ID, in
  their order, then at the last position the new block as JSON carries it, that is
  with every byte of its strings that is not valid UTF-8 replaced by U+FFFD. When the
  strings of the block are valid UTF-8 the last entry is the block itself and the only
  one with its ID. No file other than the peer's data file has changed, and not the
  chain of the process. Files are meant, not paths: in the second instance after the
  theorem the peer is \<^verbatim>\<open>../nodes\<close>, whose data file is the nodes file, and the store
  replaces the empty registry by an array of blocks, so that the registry does not
  load any more.
\<close>

theorem storeBlockData_frame:
  assumes "logged (storeBlockData block nodeID w) = logged w"
  shows "\<exists>old new. loadBlocks nodeID w = Inr old
     \<and> loadBlocks nodeID (storeBlockData block nodeID w) = Inr new
     \<and> new = filter (\<lambda>b. ID b \<noteq> ID block) old @ [coerceBlock block]
     \<and> butlast new = filter (\<lambda>b. ID b \<noteq> ID block) old
     \<and> last new = coerceBlock block
     \<and> (coerceBlock block = block \<longrightarrow>
          new = filter (\<lambda>b. ID b \<noteq> ID block) old @ [block]
          \<and> filter (\<lambda>b. ID b \<noteq> ID block) new = filter (\<lambda>b. ID b \<noteq> ID block) old
          \<and> filter (\<lambda>b. ID b = ID block) new = [block]
          \<and> last new = block)
     \<and> (coerce (ID block) = ID block \<longrightarrow>
          filter (\<lambda>b. ID b \<noteq> ID block) new = filter (\<lambda>b. ID b \<noteq> ID block) old
          \<and> filter (\<lambda>b. ID b = ID block) new = [coerceBlock block])
     \<and> (\<forall>f. f \<noteq> resolve w (blockFile nodeID) \<longrightarrow> files (storeBlockData block nodeID w) f = files w f)
     \<and> blockchain (storeBlockData block nodeID w) = blockchain w"
proof -
  from storeBlockData_success [OF assms] obtain old where
    old: "loadBlocks nodeID w = Inr old" and wr: "resolve w (blockFile nodeID) \<notin> unwritable w"
    by blast
  let ?new = "filter (\<lambda>b. ID b \<noteq> ID block) old @ [coerceBlock block]"
  have n: "loadBlocks nodeID (storeBlockData block nodeID w) = Inr ?new"
    by (rule storeBlockData_stores(2) [OF old wr])
  have 1: "butlast ?new = filter (\<lambda>b. ID b \<noteq> ID block) old" "last ?new = coerceBlock block"
    by simp_all
  have 2: "coerceBlock block = block \<longrightarrow>
          ?new = filter (\<lambda>b. ID b \<noteq> ID block) old @ [block]
          \<and> filter (\<lambda>b. ID b \<noteq> ID block) ?new = filter (\<lambda>b. ID b \<noteq> ID block) old
          \<and> filter (\<lambda>b. ID b = ID block) ?new = [block]
          \<and> last ?new = block"
    by simp
  have 3: "coerce (ID block) = ID block \<longrightarrow>
          filter (\<lambda>b. ID b \<noteq> ID block) ?new = filter (\<lambda>b. ID b \<noteq> ID block) old
          \<and> filter (\<lambda>b. ID b = ID block) ?new = [coerceBlock block]"
    by simp
  have 4: "\<forall>f. f \<noteq> resolve w (blockFile nodeID) \<longrightarrow> files (storeBlockData block nodeID w) f = files w f"
    by (simp add: storeBlockData_other)
  from old n 1 2 3 4 show ?thesis
    by (intro exI [of _ old] exI [of _ ?new] conjI) simp_all
qed

lemma aliased_env [simp]:
  "unwritable aliased = {}" "unreadable aliased = {}" "logged aliased = []"
  "files aliased = [nodesFile \<mapsto> Nodes []]"
  "resolve aliased (blockFile ''../nodes'') = nodesFile" "resolve aliased nodesFile = nodesFile"
  by (simp_all add: aliased_def blockFile_def nodesFile_def dataDirectory_def)

theorem storeBlockData_frame_witness:
  "logged (storeBlockData blockA ''node-2'' stored2) = logged stored2
   \<and> coerceBlock blockA = blockA
   \<and> loadBlocks ''node-2'' stored2 = Inr [blockA, blockB]
   \<and> loadBlocks ''node-2'' (storeBlockData blockA ''node-2'' stored2) = Inr [blockB, blockA]
   \<and> resolve aliased (blockFile ''../nodes'') = resolve aliased nodesFile
   \<and> fst (loadNodes aliased) = Inr []
   \<and> logged (storeBlockData blockA ''../nodes'' aliased) = logged aliased
   \<and> loadBlocks ''../nodes'' (storeBlockData blockA ''../nodes'' aliased) = Inr [blockA]
   \<and> fst (loadNodes (storeBlockData blockA ''../nodes'' aliased)) = Inl ErrSyntax"
proof -
  have l: "logged (storeBlockData blockA ''node-2'' stored2) = logged stored2"
    using stored2_load by (simp add: logged_storeBlockData)
  have a: "loadBlocks ''../nodes'' aliased = Inr []"
    by (simp add: loadBlocks_alt)
  then have k: "logged (storeBlockData blockA ''../nodes'' aliased) = logged aliased"
    by (simp add: logged_storeBlockData)
  have n: "fst (loadNodes aliased) = Inr []"
    by (simp add: loadNodes_def ReadFile_def Let_def)
  from storeBlockData_frame [OF k] a
  have b: "loadBlocks ''../nodes'' (storeBlockData blockA ''../nodes'' aliased) = Inr [blockA]"
    by auto
  then have "files (storeBlockData blockA ''../nodes'' aliased) nodesFile = Some (Blocks [blockA])"
    using storeBlockData_stores(1) [OF a, of blockA] by (simp add: marshalBlocks_def)
  then have c: "fst (loadNodes (storeBlockData blockA ''../nodes'' aliased)) = Inl ErrSyntax"
    by (simp add: loadNodes_def ReadFile_def Let_def)
  from storeBlockData_frame [OF l] stored2_load l n k b c show ?thesis
    by auto
qed

lemma blockX_Data:
  "Data blockX = ''Data for Node n'' @ [CHR 0xFF]"
  "Data (coerceBlock blockX) = ''Data for Node n'' @ [CHR 0xEF, CHR 0xBF, CHR 0xBD]"
  by (simp_all add: blockX_def nodeX_def callX_def coerce_eval)

text \<open>
  C10 as stated fails for a block with a string that is not valid UTF-8. A process
  started with the node ID \<^verbatim>\<open>n\<close>, \<^verbatim>\<open>FF\<close> mines a block whose \<^verbatim>\<open>Data\<close> ends in the byte
  \<^verbatim>\<open>FF\<close>. Stored for peer \<^verbatim>\<open>node-2\<close> in an empty data directory, without a logged
  error, it leaves a sequence whose one entry is not that block: its \<^verbatim>\<open>Data\<close> ends in
  the three bytes of U+FFFD.
\<close>

theorem storeBlockData_frame_counterexample:
  "mined (mineBlock (uuid callX) (now1 callX) (now2 callX) (arg callX)
            (initBlockchain uuid0 fresh)) = Some blockX
   \<and> logged (storeBlockData blockX ''node-2'' fresh) = logged fresh
   \<and> loadBlocks ''node-2'' fresh = Inr []
   \<and> loadBlocks ''node-2'' (storeBlockData blockX ''node-2'' fresh) = Inr [coerceBlock blockX]
   \<and> Data blockX = ''Data for Node n'' @ [CHR 0xFF]
   \<and> Data (coerceBlock blockX) = ''Data for Node n'' @ [CHR 0xEF, CHR 0xBF, CHR 0xBD]
   \<and> [coerceBlock blockX] \<noteq> filter (\<lambda>b. ID b \<noteq> ID blockX) [] @ [blockX]"
proof -
  have m: "mined (mineBlock (uuid callX) (now1 callX) (now2 callX) (arg callX)
            (initBlockchain uuid0 fresh)) = Some blockX"
    by (simp add: mined_def mineBlock_def initBlockchain_def Let_def blockX_def genesisHash_def
        callX_def)
  have l: "logged (storeBlockData blockX ''node-2'' fresh) = logged fresh"
    by (simp add: logged_storeBlockData)
  have s: "loadBlocks ''node-2'' (storeBlockData blockX ''node-2'' fresh) = Inr [coerceBlock blockX]"
    using storeBlockData_stores(2) [where old = "[]" and w = fresh and p = "''node-2''" and b = blockX]
    by simp
  have n: "coerceBlock blockX \<noteq> blockX"
  proof
    assume "coerceBlock blockX = blockX"
    then have "Data (coerceBlock blockX) = Data blockX"
      by (simp only:)
    then show False
      by (simp only: blockX_Data) simp
  qed
  from m l s n blockX_Data show ?thesis
    by simp
qed

lemma filter_ID_unique_length:
  assumes "filter (\<lambda>x. ID x = ID b) old = [b]"
  shows "length (filter (\<lambda>x. ID x \<noteq> ID b) old @ [b]) = length old"
proof -
  have "length old = length (filter (\<lambda>x. ID x = ID b) old) + length (filter (\<lambda>x. \<not> ID x = ID b) old)"
    by (rule sum_length_filter_compl [symmetric])
  with assms show ?thesis by simp
qed

lemma filter_ID_unique_mset:
  assumes "filter (\<lambda>x. ID x = ID b) old = [b]"
  shows "mset (filter (\<lambda>x. ID x \<noteq> ID b) old @ [b]) = mset old"
proof -
  have "mset old = mset (filter (\<lambda>x. ID x = ID b) old) + mset (filter (\<lambda>x. \<not> ID x = ID b) old)"
    by (simp only: mset_filter multiset_partition [symmetric])
  with assms show ?thesis by simp
qed

lemma filter_ID_unique_last:
  assumes "filter (\<lambda>x. ID x = ID b) old = [b]" "last old = b"
  shows "filter (\<lambda>x. ID x \<noteq> ID b) old @ [b] = old"
proof -
  from assms(1) have "old \<noteq> []" by auto
  with assms(2) have o: "old = butlast old @ [b]"
    by (metis append_butlast_last_id)
  from assms(1) have "filter (\<lambda>x. ID x = ID b) (butlast old @ [b]) = [b]"
    using o by simp
  then have "filter (\<lambda>x. ID x = ID b) (butlast old) = []"
    by simp
  then have "filter (\<lambda>x. ID x \<noteq> ID b) (butlast old) = butlast old"
    by (simp add: filter_empty_conv filter_id_conv)
  then have "filter (\<lambda>x. ID x \<noteq> ID b) (butlast old @ [b]) @ [b] = butlast old @ [b]"
    by simp
  with o show ?thesis by simp
qed

lemma stored_coerced:
  assumes "loadBlocks P w = Inr old" "filter (\<lambda>x. ID x = ID B) old = [B]"
  shows "coerceBlock B = B"
proof -
  from assms(2) have "B \<in> set (filter (\<lambda>x. ID x = ID B) old)" by simp
  then have "B \<in> set old" by simp
  moreover from loadBlocks_coerced [OF assms(1)] have "\<forall>x \<in> set old. coerceBlock x = x"
    by (simp add: map_idI [symmetric] list.map_ident_strong map_eq_conv [where g = "\<lambda>x. x", simplified])
  ultimately show ?thesis by blast
qed

text \<open>
  C4, as amended. Let \<open>B\<close> be in the sequence \<open>old\<close> stored for peer \<open>P\<close> and be the only
  entry there with its ID, and let the write not fail on a truncated file. Then
  \<^verbatim>\<open>storeBlockData(B, P)\<close> leaves a sequence of the same length with the same blocks
  and still one entry for \<open>B\<close>'s ID; when the file is written, \<open>B\<close> has moved to the
  last position and the other blocks keep their order, so the sequence is the old one
  when \<open>B\<close> was already last. A write that fails after the file was truncated leaves
  a file that does not decode. Every sequence that a call of \<^verbatim>\<open>storeBlockData\<close>
  without a logged error has written for a block \<open>B\<close> whose ID is valid UTF-8 (a UUID
  is) holds one entry with that ID, the block as JSON carries it. Delivering such a
  block twice in a row leaves the files that delivering it once leaves.
\<close>

theorem storeBlockData_redelivery:
  "(loadBlocks P w = Inr old \<and> filter (\<lambda>x. ID x = ID B) old = [B]
      \<and> (resolve w (blockFile P) \<in> unwritable w \<longrightarrow> leftover w (resolve w (blockFile P)) \<noteq> Torn) \<longrightarrow>
      (\<exists>new. loadBlocks P (storeBlockData B P w) = Inr new
         \<and> length new = length old \<and> mset new = mset old
         \<and> filter (\<lambda>x. ID x = ID B) new = [B]
         \<and> (resolve w (blockFile P) \<notin> unwritable w \<longrightarrow> new = filter (\<lambda>x. ID x \<noteq> ID B) old @ [B])
         \<and> (last old = B \<longrightarrow> new = old)))
   \<and> (loadBlocks P w = Inr old \<and> resolve w (blockFile P) \<in> unwritable w
        \<and> leftover w (resolve w (blockFile P)) = Torn \<longrightarrow>
      loadBlocks P (storeBlockData B P w) = Inl ErrSyntax)
   \<and> (logged (storeBlockData B P w) = logged w \<and> coerce (ID B) = ID B \<longrightarrow>
      (\<exists>new. loadBlocks P (storeBlockData B P w) = Inr new
         \<and> filter (\<lambda>x. ID x = ID B) new = [coerceBlock B]))
   \<and> (coerce (ID B) = ID B \<longrightarrow>
      files (storeBlockData B P (storeBlockData B P w)) = files (storeBlockData B P w))"
proof (intro conjI impI)
  assume a: "loadBlocks P w = Inr old \<and> filter (\<lambda>x. ID x = ID B) old = [B]
      \<and> (resolve w (blockFile P) \<in> unwritable w \<longrightarrow> leftover w (resolve w (blockFile P)) \<noteq> Torn)"
  then have old: "loadBlocks P w = Inr old" and u: "filter (\<lambda>x. ID x = ID B) old = [B]"
    and t: "resolve w (blockFile P) \<in> unwritable w \<longrightarrow> leftover w (resolve w (blockFile P)) \<noteq> Torn"
    by simp_all
  note c = stored_coerced [OF old u]
  let ?new = "filter (\<lambda>x. ID x \<noteq> ID B) old @ [B]"
  have g: "length ?new = length old \<and> mset ?new = mset old
         \<and> filter (\<lambda>x. ID x = ID B) ?new = [B] \<and> (last old = B \<longrightarrow> ?new = old)"
    using filter_ID_unique_length [OF u] filter_ID_unique_mset [OF u] filter_ID_unique_last [OF u]
    by simp
  show "\<exists>new. loadBlocks P (storeBlockData B P w) = Inr new
         \<and> length new = length old \<and> mset new = mset old
         \<and> filter (\<lambda>x. ID x = ID B) new = [B]
         \<and> (resolve w (blockFile P) \<notin> unwritable w \<longrightarrow> new = filter (\<lambda>x. ID x \<noteq> ID B) old @ [B])
         \<and> (last old = B \<longrightarrow> new = old)"
  proof (cases "resolve w (blockFile P) \<in> unwritable w")
    case False
    from storeBlockData_stores(2) [OF old False, of B] c
    have "loadBlocks P (storeBlockData B P w) = Inr ?new" by simp
    with False g show ?thesis by simp
  next
    case True
    note f = storeBlockData_fails [OF old True, of B]
    show ?thesis
    proof (cases "leftover w (resolve w (blockFile P))")
      case Untouched
      with f have "loadBlocks P (storeBlockData B P w) = Inr old" by simp
      with True u show ?thesis by simp
    next
      case Torn
      with t True show ?thesis by simp
    next
      case Complete
      with f c have "loadBlocks P (storeBlockData B P w) = Inr ?new" by simp
      with True g show ?thesis by simp
    qed
  qed
next
  assume "loadBlocks P w = Inr old \<and> resolve w (blockFile P) \<in> unwritable w
        \<and> leftover w (resolve w (blockFile P)) = Torn"
  then show "loadBlocks P (storeBlockData B P w) = Inl ErrSyntax"
    using storeBlockData_fails [of P w old B] by simp
next
  assume a: "logged (storeBlockData B P w) = logged w \<and> coerce (ID B) = ID B"
  from storeBlockData_success [of B P w] a obtain old where
    "loadBlocks P w = Inr old" "resolve w (blockFile P) \<notin> unwritable w"
    by blast
  from storeBlockData_stores(2) [OF this, of B] a
  show "\<exists>new. loadBlocks P (storeBlockData B P w) = Inr new
         \<and> filter (\<lambda>x. ID x = ID B) new = [coerceBlock B]"
    by simp
next
  assume "coerce (ID B) = ID B"
  then show "files (storeBlockData B P (storeBlockData B P w)) = files (storeBlockData B P w)"
    by (rule storeBlockData_twice)
qed

lemma diskFull_env [simp]:
  "unwritable diskFull = {blockFile ''node-2''}" "resolve diskFull f = f"
  "leftover diskFull f = Torn"
  by (simp_all add: diskFull_def)

lemma diskFull_load: "loadBlocks ''node-2'' diskFull = Inr [blockA, blockB]"
  using stored2_load by (simp add: loadBlocks_alt diskFull_def)

theorem storeBlockData_redelivery_witness:
  "loadBlocks ''node-2'' stored2 = Inr [blockA, blockB]
   \<and> filter (\<lambda>x. ID x = ID blockA) [blockA, blockB] = [blockA]
   \<and> resolve stored2 (blockFile ''node-2'') \<notin> unwritable stored2
   \<and> (\<exists>new. loadBlocks ''node-2'' (storeBlockData blockA ''node-2'' stored2) = Inr new
         \<and> length new = 2 \<and> mset new = mset [blockA, blockB] \<and> new = [blockB, blockA])
   \<and> loadBlocks ''node-2'' diskFull = Inr [blockA, blockB]
   \<and> resolve diskFull (blockFile ''node-2'') \<in> unwritable diskFull
   \<and> leftover diskFull (resolve diskFull (blockFile ''node-2'')) = Torn
   \<and> loadBlocks ''node-2'' (storeBlockData blockA ''node-2'' diskFull) = Inl ErrSyntax
   \<and> logged (storeBlockData blockA ''node-2'' fresh) = logged fresh
   \<and> coerce (ID blockA) = ID blockA
   \<and> (\<exists>new. loadBlocks ''node-2'' (storeBlockData blockA ''node-2'' fresh) = Inr new
         \<and> filter (\<lambda>x. ID x = ID blockA) new = [blockA])
   \<and> files (storeBlockData blockA ''node-2'' (storeBlockData blockA ''node-2'' fresh)) =
       files (storeBlockData blockA ''node-2'' fresh)"
proof -
  note t = storeBlockData_redelivery [where B = blockA and P = "''node-2''"]
  have f: "filter (\<lambda>x. ID x = ID blockA) [blockA, blockB] = [blockA]"
    by simp
  have w: "resolve stored2 (blockFile ''node-2'') \<notin> unwritable stored2"
    by simp
  have l: "logged (storeBlockData blockA ''node-2'' fresh) = logged fresh"
    by (simp add: logged_storeBlockData)
  have i: "coerce (ID blockA) = ID blockA"
    using coerceBlock_A_B(1) by (simp only: coerceBlock_fixed)
  have d: "resolve diskFull (blockFile ''node-2'') \<in> unwritable diskFull"
    "leftover diskFull (resolve diskFull (blockFile ''node-2'')) = Torn"
    by simp_all
  from t [where w = stored2 and old = "[blockA, blockB]", THEN conjunct1] stored2_load f w
  have 1: "\<exists>new. loadBlocks ''node-2'' (storeBlockData blockA ''node-2'' stored2) = Inr new
         \<and> length new = 2 \<and> mset new = mset [blockA, blockB] \<and> new = [blockB, blockA]"
    by auto
  from t [where w = diskFull and old = "[blockA, blockB]", THEN conjunct2, THEN conjunct1]
    diskFull_load d
  have 2: "loadBlocks ''node-2'' (storeBlockData blockA ''node-2'' diskFull) = Inl ErrSyntax"
    by simp
  from t [where w = fresh, THEN conjunct2, THEN conjunct2, THEN conjunct1] l i
  have 3: "\<exists>new. loadBlocks ''node-2'' (storeBlockData blockA ''node-2'' fresh) = Inr new
         \<and> filter (\<lambda>x. ID x = ID blockA) new = [blockA]"
    by simp
  from t [where w = fresh, THEN conjunct2, THEN conjunct2, THEN conjunct2] i
  have 4: "files (storeBlockData blockA ''node-2'' (storeBlockData blockA ''node-2'' fresh)) =
       files (storeBlockData blockA ''node-2'' fresh)"
    by simp
  from stored2_load f w 1 diskFull_load d 2 l i 3 4 show ?thesis
    by blast
qed

lemma twice_env [simp]: "unwritable twice = {}" "unreadable twice = {}" "logged twice = []"
  "files twice = [blockFile ''node-2'' \<mapsto> Blocks [blockA, blockA]]" "resolve twice f = f"
  by (simp_all add: twice_def)

text \<open>
  C4 as stated fails on a file that lists \<open>B\<close> twice: storing \<open>B\<close> again shortens
  the sequence from two entries to one. It also fails for sequence equality on a file
  written by the program itself: after \<open>A\<close> and \<open>B\<close> were stored, storing \<open>A\<close> again
  turns \<open>[A, B]\<close> into \<open>[B, A]\<close>.
\<close>

theorem storeBlockData_redelivery_counterexample:
  "loadBlocks ''node-2'' twice = Inr [blockA, blockA]
   \<and> blockA \<in> set [blockA, blockA]
   \<and> logged (storeBlockData blockA ''node-2'' twice) = logged twice
   \<and> loadBlocks ''node-2'' (storeBlockData blockA ''node-2'' twice) = Inr [blockA]
   \<and> length [blockA] \<noteq> length [blockA, blockA]
   \<and> loadBlocks ''node-2'' stored2 = Inr [blockA, blockB]
   \<and> blockA \<in> set [blockA, blockB]
   \<and> logged (storeBlockData blockA ''node-2'' stored2) = logged stored2
   \<and> loadBlocks ''node-2'' (storeBlockData blockA ''node-2'' stored2) = Inr [blockB, blockA]
   \<and> [blockB, blockA] \<noteq> [blockA, blockB]"
proof -
  have t: "loadBlocks ''node-2'' twice = Inr [blockA, blockA]"
    by (simp add: loadBlocks_alt)
  have ne: "blockB \<noteq> blockA"
    by (metis ID_A_B(1))
  have "loadBlocks ''node-2'' (storeBlockData blockA ''node-2'' twice) = Inr [blockA]"
    using storeBlockData_stores(2) [OF t, of blockA] by simp
  moreover have "logged (storeBlockData blockA ''node-2'' twice) = logged twice"
    using t by (simp add: logged_storeBlockData)
  moreover have "loadBlocks ''node-2'' (storeBlockData blockA ''node-2'' stored2) = Inr [blockB, blockA]"
    using storeBlockData_stores(2) [OF stored2_load, of blockA] by simp
  moreover have "logged (storeBlockData blockA ''node-2'' stored2) = logged stored2"
    using stored2_load by (simp add: logged_storeBlockData)
  ultimately show ?thesis
    using t ne stored2_load by simp
qed

section \<open>Properties of the registry\<close>

lemma loadNodes_alt:
  "loadNodes w =
     (if resolve w nodesFile \<in> unreadable w then (Inl ErrIO, w)
      else case files w (resolve w nodesFile) of
             None \<Rightarrow>
               if resolve w nodesFile \<in> unwritable w
               then (Inl ErrIO, snd (WriteFile nodesFile (Nodes []) w))
               else (Inr [], w\<lparr>files := (files w)(resolve w nodesFile \<mapsto> Nodes [])\<rparr>)
           | Some data \<Rightarrow> (case unmarshalNodes data of Inl e \<Rightarrow> (Inl e, w) | Inr nodes \<Rightarrow> (Inr nodes, w)))"
  by (simp add: loadNodes_def createNodesFile_def marshalNodes_def ReadFile_def WriteFile_def Let_def
      split: option.splits sum.splits leftover.splits)

text \<open>
  C7. When the nodes file does not exist and can be created, \<^verbatim>\<open>loadNodes\<close> returns the
  empty slice and leaves the file holding the empty JSON array, and the next
  \<^verbatim>\<open>loadNodes\<close> returns the empty slice again without changing anything. When the
  file cannot be created, that error is returned, and nothing has changed when the
  file could not be opened. When the file exists, a read error and a decoding error
  are returned to the caller; otherwise the decoded slice is.
\<close>

theorem loadNodes_fresh_and_errors:
  "(ReadFile nodesFile w = Inl ErrNotExist \<and> resolve w nodesFile \<notin> unwritable w \<longrightarrow>
      (\<exists>w1. loadNodes w = (Inr [], w1) \<and> files w1 (resolve w nodesFile) = Some (Nodes [])
         \<and> loadNodes w1 = (Inr [], w1)))
   \<and> (ReadFile nodesFile w = Inl ErrNotExist \<and> resolve w nodesFile \<in> unwritable w \<longrightarrow>
      fst (loadNodes w) = Inl ErrIO
      \<and> (leftover w (resolve w nodesFile) = Untouched \<longrightarrow> loadNodes w = (Inl ErrIO, w)))
   \<and> (\<forall>e. ReadFile nodesFile w = Inl e \<and> e \<noteq> ErrNotExist \<longrightarrow> loadNodes w = (Inl e, w))
   \<and> (\<forall>data e. ReadFile nodesFile w = Inr data \<and> unmarshalNodes data = Inl e \<longrightarrow>
      loadNodes w = (Inl e, w))
   \<and> (\<forall>data nodes. ReadFile nodesFile w = Inr data \<and> unmarshalNodes data = Inr nodes \<longrightarrow>
      loadNodes w = (Inr nodes, w))"
proof (intro conjI allI impI)
  assume "ReadFile nodesFile w = Inl ErrNotExist \<and> resolve w nodesFile \<notin> unwritable w"
  then have a: "resolve w nodesFile \<notin> unreadable w" "files w (resolve w nodesFile) = None"
    "resolve w nodesFile \<notin> unwritable w"
    by (simp_all add: ReadFile_NotExist)
  let ?w1 = "w\<lparr>files := (files w)(resolve w nodesFile \<mapsto> Nodes [])\<rparr>"
  from a have "loadNodes w = (Inr [], ?w1)"
    by (simp add: loadNodes_alt)
  moreover from a have "loadNodes ?w1 = (Inr [], ?w1)"
    by (simp add: loadNodes_alt)
  ultimately show "\<exists>w1. loadNodes w = (Inr [], w1) \<and> files w1 (resolve w nodesFile) = Some (Nodes [])
         \<and> loadNodes w1 = (Inr [], w1)"
    by simp
next
  assume "ReadFile nodesFile w = Inl ErrNotExist \<and> resolve w nodesFile \<in> unwritable w"
  then show "fst (loadNodes w) = Inl ErrIO"
    by (simp add: ReadFile_NotExist loadNodes_alt)
next
  assume "ReadFile nodesFile w = Inl ErrNotExist \<and> resolve w nodesFile \<in> unwritable w"
    and "leftover w (resolve w nodesFile) = Untouched"
  then show "loadNodes w = (Inl ErrIO, w)"
    by (simp add: ReadFile_NotExist loadNodes_alt WriteFile_def Let_def)
next
  fix e assume "ReadFile nodesFile w = Inl e \<and> e \<noteq> ErrNotExist"
  then show "loadNodes w = (Inl e, w)"
    by (simp add: loadNodes_def)
next
  fix data e assume "ReadFile nodesFile w = Inr data \<and> unmarshalNodes data = Inl e"
  then show "loadNodes w = (Inl e, w)"
    by (simp add: loadNodes_def)
next
  fix data nodes assume "ReadFile nodesFile w = Inr data \<and> unmarshalNodes data = Inr nodes"
  then show "loadNodes w = (Inr nodes, w)"
    by (simp add: loadNodes_def)
qed

theorem loadNodes_fresh_and_errors_witness:
  "ReadFile nodesFile fresh = Inl ErrNotExist \<and> resolve fresh nodesFile \<notin> unwritable fresh
   \<and> (\<exists>w1. loadNodes fresh = (Inr [], w1) \<and> files w1 (resolve fresh nodesFile) = Some (Nodes [])
         \<and> loadNodes w1 = (Inr [], w1))
   \<and> ReadFile nodesFile locked = Inl ErrIO \<and> ErrIO \<noteq> ErrNotExist
   \<and> loadNodes locked = (Inl ErrIO, locked)
   \<and> ReadFile nodesFile garbled = Inr Garbage \<and> unmarshalNodes Garbage = Inl ErrSyntax
   \<and> loadNodes garbled = (Inl ErrSyntax, garbled)
   \<and> ReadFile nodesFile readOnly = Inl ErrNotExist
   \<and> resolve readOnly nodesFile \<in> unwritable readOnly
   \<and> leftover readOnly (resolve readOnly nodesFile) = Untouched
   \<and> loadNodes readOnly = (Inl ErrIO, readOnly)
   \<and> ReadFile nodesFile twoPeers = Inr (Nodes [''node-2'', ''node-3''])
   \<and> unmarshalNodes (Nodes [''node-2'', ''node-3'']) = Inr [''node-2'', ''node-3'']
   \<and> loadNodes twoPeers = (Inr [''node-2'', ''node-3''], twoPeers)"
proof -
  have 1: "ReadFile nodesFile fresh = Inl ErrNotExist \<and> resolve fresh nodesFile \<notin> unwritable fresh"
    by (simp add: ReadFile_NotExist)
  have 2: "ReadFile nodesFile locked = Inl ErrIO \<and> ErrIO \<noteq> ErrNotExist"
    by (simp add: ReadFile_def locked_def fresh_def)
  have 3: "ReadFile nodesFile garbled = Inr Garbage \<and> unmarshalNodes Garbage = Inl ErrSyntax"
    by (simp add: ReadFile_def garbled_def fresh_def)
  have 4: "ReadFile nodesFile readOnly = Inl ErrNotExist
      \<and> resolve readOnly nodesFile \<in> unwritable readOnly"
    by (simp add: ReadFile_def readOnly_def fresh_def)
  have 6: "leftover readOnly (resolve readOnly nodesFile) = Untouched"
    by (simp add: readOnly_def fresh_def)
  have 5: "ReadFile nodesFile twoPeers = Inr (Nodes [''node-2'', ''node-3''])
      \<and> unmarshalNodes (Nodes [''node-2'', ''node-3'']) = Inr [''node-2'', ''node-3'']"
    by (simp add: ReadFile_def twoPeers_def fresh_def)
  note t = loadNodes_fresh_and_errors
  from t [of fresh, THEN conjunct1, rule_format, OF 1]
    t [of locked, THEN conjunct2, THEN conjunct2, THEN conjunct1, rule_format, OF 2]
    t [of garbled, THEN conjunct2, THEN conjunct2, THEN conjunct2, THEN conjunct1, rule_format, OF 3]
    t [of readOnly, THEN conjunct2, THEN conjunct1, rule_format, OF 4, THEN conjunct2, rule_format, OF 6]
    t [of twoPeers, THEN conjunct2, THEN conjunct2, THEN conjunct2, THEN conjunct2, rule_format, OF 5]
    1 2 3 4 6 5
  show ?thesis by blast
qed

lemma registerNodeWithDiscovery_alt:
  "registerNodeWithDiscovery p w =
     (case loadNodes w of
        (Inl err, w1) \<Rightarrow> (Some err, w1)
      | (Inr nodes, w1) \<Rightarrow>
          if resolve w1 nodesFile \<in> unwritable w1
          then (Some ErrIO, snd (WriteFile nodesFile (marshalNodes (nodes @ [p])) w1))
          else (None, w1\<lparr>files := (files w1)(resolve w1 nodesFile \<mapsto> marshalNodes (nodes @ [p]))\<rparr>))"
  by (simp add: registerNodeWithDiscovery_def saveNodes_def WriteFile_def Let_def
      split: prod.splits sum.splits)

lemma loadNodes_env [simp]:
  "resolve (snd (loadNodes w)) = resolve w"
  "unreadable (snd (loadNodes w)) = unreadable w"
  "unwritable (snd (loadNodes w)) = unwritable w"
  "leftover (snd (loadNodes w)) = leftover w"
  "blockchain (snd (loadNodes w)) = blockchain w"
  "logged (snd (loadNodes w)) = logged w"
  by (simp_all add: loadNodes_alt split: option.splits sum.splits)

lemma loadNodes_other:
  "f \<noteq> resolve w nodesFile \<Longrightarrow> files (snd (loadNodes w)) f = files w f"
  by (simp add: loadNodes_alt files_WriteFile split: option.splits sum.splits leftover.splits)

lemma loadNodes_Inr_readable:
  "loadNodes w = (Inr nodes, w1) \<Longrightarrow> resolve w nodesFile \<notin> unreadable w"
  by (simp add: loadNodes_alt split: option.splits sum.splits if_splits)

lemma loadNodes_coerced:
  "loadNodes w = (Inr nodes, w1) \<Longrightarrow> map coerce nodes = nodes"
  by (auto simp: loadNodes_alt unmarshalNodes_coerced split: option.splits sum.splits if_splits)

lemma register_ok:
  assumes "fst (registerNodeWithDiscovery p w) = None"
  shows "\<exists>nodes w1. loadNodes w = (Inr nodes, w1) \<and> resolve w nodesFile \<notin> unwritable w
     \<and> resolve w nodesFile \<notin> unreadable w
     \<and> snd (registerNodeWithDiscovery p w) =
         w1\<lparr>files := (files w1)(resolve w nodesFile \<mapsto> Nodes (nodes @ [coerce p]))\<rparr>"
proof (cases "loadNodes w")
  case (Pair r w1)
  with assms obtain nodes where r: "r = Inr nodes"
    by (cases r) (simp_all add: registerNodeWithDiscovery_alt)
  from Pair have e: "unwritable w1 = unwritable w" "resolve w1 = resolve w"
    using loadNodes_env(1,3) [of w] by simp_all
  from Pair r have c: "map coerce nodes = nodes"
    by (simp add: loadNodes_coerced)
  with assms Pair r e loadNodes_Inr_readable [of w nodes w1] show ?thesis
    by (simp add: registerNodeWithDiscovery_alt marshalNodes_def split: if_splits)
qed

text \<open>
  C9, as amended. A registration that returns no error has written the loaded
  sequence with the peer ID appended at the end, whether or not the ID was in it,
  where the ID is written as JSON carries it: every byte that is not valid UTF-8
  replaced by U+FFFD. Loading returns that sequence, so for an ID that is valid UTF-8
  the sequence ends in the ID itself. Registering the same ID once more succeeds and
  leaves it at the last two positions. A registration succeeds whenever the registry
  loads and the nodes file can be written.
\<close>

theorem register_appends:
  "(fst (registerNodeWithDiscovery peerID w) = None \<longrightarrow>
      (\<exists>nodes w1 w2. loadNodes w = (Inr nodes, w1)
         \<and> registerNodeWithDiscovery peerID w = (None, w2)
         \<and> files w2 (resolve w nodesFile) = Some (Nodes (nodes @ [coerce peerID]))
         \<and> loadNodes w2 = (Inr (nodes @ [coerce peerID]), w2)
         \<and> (coerce peerID = peerID \<longrightarrow> loadNodes w2 = (Inr (nodes @ [peerID]), w2))
         \<and> (\<exists>w3. registerNodeWithDiscovery peerID w2 = (None, w3)
              \<and> files w3 (resolve w nodesFile) = Some (Nodes (nodes @ [coerce peerID, coerce peerID]))
              \<and> loadNodes w3 = (Inr (nodes @ [coerce peerID, coerce peerID]), w3))))
   \<and> (\<forall>nodes w1. loadNodes w = (Inr nodes, w1) \<and> resolve w nodesFile \<notin> unwritable w \<longrightarrow>
        fst (registerNodeWithDiscovery peerID w) = None)"
proof (intro conjI allI impI)
  assume "fst (registerNodeWithDiscovery peerID w) = None"
  from register_ok [OF this] obtain nodes w1 where
    l: "loadNodes w = (Inr nodes, w1)" and wr: "resolve w nodesFile \<notin> unwritable w"
    and rd: "resolve w nodesFile \<notin> unreadable w"
    and s: "snd (registerNodeWithDiscovery peerID w) =
              w1\<lparr>files := (files w1)(resolve w nodesFile \<mapsto> Nodes (nodes @ [coerce peerID]))\<rparr>"
    by blast
  let ?f = "resolve w nodesFile"
  let ?w2 = "w1\<lparr>files := (files w1)(?f \<mapsto> Nodes (nodes @ [coerce peerID]))\<rparr>"
  let ?w3 = "?w2\<lparr>files := (files ?w2)(?f \<mapsto> Nodes (nodes @ [coerce peerID, coerce peerID]))\<rparr>"
  from l have e: "unreadable w1 = unreadable w" "unwritable w1 = unwritable w"
    "resolve w1 = resolve w"
    using loadNodes_env(1,2,3) [of w] by simp_all
  note c = loadNodes_coerced [OF l]
  have r: "registerNodeWithDiscovery peerID w = (None, ?w2)"
    using l wr e c by (simp add: registerNodeWithDiscovery_alt marshalNodes_def)
  have l2: "loadNodes ?w2 = (Inr (nodes @ [coerce peerID]), ?w2)"
    using rd e c by (simp add: loadNodes_alt)
  have r2: "registerNodeWithDiscovery peerID ?w2 = (None, ?w3)"
    using l2 wr e c by (simp add: registerNodeWithDiscovery_alt marshalNodes_def)
  have l3: "loadNodes ?w3 = (Inr (nodes @ [coerce peerID, coerce peerID]), ?w3)"
    using rd e c by (simp add: loadNodes_alt)
  have v: "coerce peerID = peerID \<longrightarrow> loadNodes ?w2 = (Inr (nodes @ [peerID]), ?w2)"
  proof
    assume h: "coerce peerID = peerID"
    from l2 show "loadNodes ?w2 = (Inr (nodes @ [peerID]), ?w2)"
      by (simp only: h)
  qed
  have "files ?w2 ?f = Some (Nodes (nodes @ [coerce peerID]))"
    "files ?w3 ?f = Some (Nodes (nodes @ [coerce peerID, coerce peerID]))"
    by simp_all
  with l r l2 r2 l3 v show "\<exists>nodes w1 w2. loadNodes w = (Inr nodes, w1)
         \<and> registerNodeWithDiscovery peerID w = (None, w2)
         \<and> files w2 (resolve w nodesFile) = Some (Nodes (nodes @ [coerce peerID]))
         \<and> loadNodes w2 = (Inr (nodes @ [coerce peerID]), w2)
         \<and> (coerce peerID = peerID \<longrightarrow> loadNodes w2 = (Inr (nodes @ [peerID]), w2))
         \<and> (\<exists>w3. registerNodeWithDiscovery peerID w2 = (None, w3)
              \<and> files w3 (resolve w nodesFile) = Some (Nodes (nodes @ [coerce peerID, coerce peerID]))
              \<and> loadNodes w3 = (Inr (nodes @ [coerce peerID, coerce peerID]), w3))"
    by (intro exI [of _ nodes] exI [of _ w1] exI [of _ ?w2] exI [of _ ?w3] conjI)
next
  fix nodes w1 assume a: "loadNodes w = (Inr nodes, w1) \<and> resolve w nodesFile \<notin> unwritable w"
  then have "unwritable w1 = unwritable w" "resolve w1 = resolve w"
    using loadNodes_env(1,3) [of w] by simp_all
  with a show "fst (registerNodeWithDiscovery peerID w) = None"
    by (simp add: registerNodeWithDiscovery_alt)
qed

lemma twoPeers_env [simp]:
  "unreadable twoPeers = {}" "unwritable twoPeers = {}" "logged twoPeers = []"
  "files twoPeers = [nodesFile \<mapsto> Nodes [''node-2'', ''node-3'']]"
  "blockchain twoPeers = \<lparr>Chain = []\<rparr>" "resolve twoPeers f = f" "leftover twoPeers f = Untouched"
  by (simp_all add: twoPeers_def)

lemma twoPeers_load: "loadNodes twoPeers = (Inr [''node-2'', ''node-3''], twoPeers)"
  by (simp add: loadNodes_alt)

theorem register_appends_witness:
  "fst (registerNodeWithDiscovery ''node-2'' twoPeers) = None
   \<and> coerce ''node-2'' = ''node-2''
   \<and> loadNodes twoPeers = (Inr [''node-2'', ''node-3''], twoPeers)
   \<and> (\<exists>w2. registerNodeWithDiscovery ''node-2'' twoPeers = (None, w2)
        \<and> loadNodes w2 = (Inr [''node-2'', ''node-3'', ''node-2''], w2)
        \<and> (\<exists>w3. registerNodeWithDiscovery ''node-2'' w2 = (None, w3)
             \<and> loadNodes w3 = (Inr [''node-2'', ''node-3'', ''node-2'', ''node-2''], w3)))"
proof -
  have ok: "fst (registerNodeWithDiscovery ''node-2'' twoPeers) = None"
    using twoPeers_load by (simp add: registerNodeWithDiscovery_alt)
  have c: "coerce ''node-2'' = ''node-2''"
    by simp
  from register_appends [of "''node-2''" twoPeers, THEN conjunct1, rule_format, OF ok]
    twoPeers_load ok c
  show ?thesis by auto
qed

text \<open>
  C9 as stated fails for a peer ID that is not valid UTF-8. Registering the ID \<^verbatim>\<open>n\<close>,
  \<^verbatim>\<open>FF\<close> with the registry of \<^verbatim>\<open>node-2\<close> and \<^verbatim>\<open>node-3\<close> returns no error, and the registry
  then ends in the four bytes \<^verbatim>\<open>n\<close>, \<^verbatim>\<open>EF\<close>, \<^verbatim>\<open>BF\<close>, \<^verbatim>\<open>BD\<close>, not in the ID.
\<close>

theorem register_appends_counterexample:
  "fst (registerNodeWithDiscovery nodeX twoPeers) = None
   \<and> loadNodes twoPeers = (Inr [''node-2'', ''node-3''], twoPeers)
   \<and> (\<exists>w2. registerNodeWithDiscovery nodeX twoPeers = (None, w2)
        \<and> files w2 (resolve twoPeers nodesFile) =
            Some (Nodes [''node-2'', ''node-3'', [CHR ''n'', CHR 0xEF, CHR 0xBF, CHR 0xBD]])
        \<and> loadNodes w2 = (Inr [''node-2'', ''node-3'', [CHR ''n'', CHR 0xEF, CHR 0xBF, CHR 0xBD]], w2))
   \<and> nodeX = [CHR ''n'', CHR 0xFF]
   \<and> [''node-2'', ''node-3'', [CHR ''n'', CHR 0xEF, CHR 0xBF, CHR 0xBD]] \<noteq> [''node-2'', ''node-3''] @ [nodeX]"
proof -
  let ?w2 = "twoPeers\<lparr>files := (files twoPeers)(nodesFile \<mapsto>
      Nodes [''node-2'', ''node-3'', [CHR ''n'', CHR 0xEF, CHR 0xBF, CHR 0xBD]])\<rparr>"
  have c: "coerce nodeX = [CHR ''n'', CHR 0xEF, CHR 0xBF, CHR 0xBD]"
    by (simp add: nodeX_def coerce_eval)
  have r: "registerNodeWithDiscovery nodeX twoPeers = (None, ?w2)"
    using twoPeers_load by (simp add: registerNodeWithDiscovery_alt marshalNodes_def c)
  have l: "loadNodes ?w2 = (Inr [''node-2'', ''node-3'', [CHR ''n'', CHR 0xEF, CHR 0xBF, CHR 0xBD]], ?w2)"
    by (simp add: loadNodes_alt coerce_eval)
  have n: "[''node-2'', ''node-3'', [CHR ''n'', CHR 0xEF, CHR 0xBF, CHR 0xBD]] \<noteq> [''node-2'', ''node-3''] @ [nodeX]"
    by (simp add: nodeX_def)
  from r l n twoPeers_load show ?thesis
    by (simp add: nodeX_def)
qed

section \<open>Properties of the broadcaster\<close>

lemma storeForAll_env [simp]:
  "resolve (storeForAll b ns w) = resolve w"
  "unreadable (storeForAll b ns w) = unreadable w"
  "unwritable (storeForAll b ns w) = unwritable w"
  "leftover (storeForAll b ns w) = leftover w"
  "blockchain (storeForAll b ns w) = blockchain w"
  by (induction ns arbitrary: w) simp_all

text \<open>
  After the loop the data file of a peer of the list is as one call for that peer
  would have left it. When two entries of the list name the same file the second
  call finds what the first one wrote; it leaves the same document provided the ID
  of the block is valid UTF-8.
\<close>

lemma storeForAll_file:
  assumes "coerce (ID b) = ID b \<or> distinct (map (\<lambda>n. resolve w (blockFile n)) ns)"
  shows "files (storeForAll b ns w) (resolve w (blockFile p)) =
     (if resolve w (blockFile p) \<in> (\<lambda>n. resolve w (blockFile n)) ` set ns
      then files (storeBlockData b p w) (resolve w (blockFile p))
      else files w (resolve w (blockFile p)))"
  using assms
proof (induction ns arbitrary: w)
  case Nil
  then show ?case by simp
next
  case (Cons q qs)
  let ?w = "storeBlockData b q w"
  let ?f = "resolve w (blockFile p)"
  have a: "coerce (ID b) = ID b \<or> distinct (map (\<lambda>n. resolve ?w (blockFile n)) qs)"
    using Cons.prems by auto
  note IH = Cons.IH [OF a, simplified]
  show ?case
  proof (cases "resolve w (blockFile q) = ?f")
    case True
    then have e: "storeBlockData b q w = storeBlockData b p w"
      by (rule storeBlockData_cong)
    show ?thesis
    proof (cases "?f \<in> (\<lambda>n. resolve w (blockFile n)) ` set qs")
      case False
      with IH True e show ?thesis by simp
    next
      case in_qs: True
      with True Cons.prems have "coerce (ID b) = ID b"
        by auto
      then have "files (storeBlockData b p (storeBlockData b p w)) = files (storeBlockData b p w)"
        by (rule storeBlockData_twice)
      with IH True in_qs e show ?thesis by simp
    qed
  next
    case False
    then have o: "files ?w ?f = files w ?f"
      by (simp add: storeBlockData_other)
    have "files (storeBlockData b p ?w) (resolve ?w (blockFile p)) =
        files (storeBlockData b p w) (resolve ?w (blockFile p))"
      using o by (intro storeBlockData_local) simp_all
    with IH False o show ?thesis
      by simp
  qed
qed

lemma storeForAll_other:
  "\<forall>n \<in> set ns. f \<noteq> resolve w (blockFile n) \<Longrightarrow> files (storeForAll b ns w) f = files w f"
  by (induction ns arbitrary: w) (simp_all add: storeBlockData_other)

lemma postToAll_posts:
  "map fst (fst (postToAll down body ns w)) = map (\<lambda>n. ''http://'' @ n @ '':8080/sync'') ns"
  "map (\<lambda>r. snd (snd r)) (fst (postToAll down body ns w)) =
     map (\<lambda>n. ''http://'' @ n @ '':8080/sync'' \<in> down) ns"
  by (induction ns arbitrary: w) (simp_all add: Let_def case_prod_unfold)


text \<open>The paths of the example states, as strings.\<close>

lemma blockFile_neq [simp]:
  "(blockFile p = blockFile q) = (p = q)" "blockFile p \<noteq> nodesFile" "nodesFile \<noteq> blockFile p"
  by (simp_all add: blockFile_def nodesFile_def dataDirectory_def)

lemma storeBlockData_blockchain_upd [simp]:
  "files (storeBlockData b p (w\<lparr>blockchain := c\<rparr>)) = files (storeBlockData b p w)"
proof -
  have "loadBlocks p (w\<lparr>blockchain := c\<rparr>) = loadBlocks p w"
    by (simp add: loadBlocks_alt)
  moreover have "files (snd (WriteFile f d (w\<lparr>blockchain := c\<rparr>))) = files (snd (WriteFile f d w))" for f d
    by (simp add: files_WriteFile split: leftover.splits)
  ultimately show ?thesis
    by (simp add: files_storeBlockData split: sum.splits)
qed

lemma mine_callA:
  assumes "Chain (blockchain W) = []"
  shows "\<exists>w1. mineBlock (uuid callA) (now1 callA) (now2 callA) (arg callA)
                 (initBlockchain uuid0 W) = Inr (blockA, w1)
           \<and> files w1 = files (storeBlockData blockA ''node-1'' W)
           \<and> unreadable w1 = unreadable W \<and> unwritable w1 = unwritable W
           \<and> resolve w1 = resolve W \<and> leftover w1 = leftover W"
  using assms
  by (simp add: mineBlock_def initBlockchain_def Let_def blockA_def genesisHash_def callA_def)

lemma peerDown_env [simp]:
  "unreadable (peerDown p) = {}" "unwritable (peerDown p) = {blockFile p}" "logged (peerDown p) = []"
  "files (peerDown p) = [nodesFile \<mapsto> Nodes [''node-2'', ''node-3'']]"
  "blockchain (peerDown p) = \<lparr>Chain = []\<rparr>" "resolve (peerDown p) f = f"
  "leftover (peerDown p) f = Untouched"
  by (simp_all add: peerDown_def)

lemma registry_after_mine:
  assumes "files w1 = files (storeBlockData blockA ''node-1'' W)"
    "files W = [nodesFile \<mapsto> Nodes [''node-2'', ''node-3'']]"
    "unreadable w1 = {}" "unreadable W = {}" "resolve w1 = resolve W" "\<forall>f. resolve W f = f"
    "blockFile ''node-1'' \<notin> unwritable W"
  shows "loadNodes w1 = (Inr [''node-2'', ''node-3''], w1)"
    and "loadBlocks ''node-2'' w1 = Inr []" and "loadBlocks ''node-3'' w1 = Inr []"
    and "files w1 (blockFile ''node-2'') = None" and "files w1 (blockFile ''node-3'') = None"
proof -
  from assms have "loadBlocks ''node-1'' W = Inr []"
    by (simp add: loadBlocks_alt)
  from storeBlockData_stores(1) [OF this, of blockA] assms
  have f: "files w1 = [nodesFile \<mapsto> Nodes [''node-2'', ''node-3''],
      blockFile ''node-1'' \<mapsto> marshalBlocks [blockA]]"
    by simp
  from f assms show "loadNodes w1 = (Inr [''node-2'', ''node-3''], w1)"
    by (simp add: loadNodes_alt)
  from f assms show "loadBlocks ''node-2'' w1 = Inr []" "loadBlocks ''node-3'' w1 = Inr []"
    "files w1 (blockFile ''node-2'') = None" "files w1 (blockFile ''node-3'') = None"
    by (simp_all add: loadBlocks_alt)
qed


section \<open>Properties of the ledger\<close>

lemma linked_append:
  "linked (bs @ [b]) = (linked bs \<and> (bs \<noteq> [] \<longrightarrow> PrevHash b = Hash (last bs)))"
  by (induction bs rule: linked.induct) auto

lemma linked_nth:
  "linked bs = (\<forall>i. 0 < i \<and> i < length bs \<longrightarrow> PrevHash (bs ! i) = Hash (bs ! (i - 1)))"
proof (induction bs rule: linked.induct)
  case (3 a b bs)
  show ?case
  proof
    assume l: "linked (a # b # bs)"
    show "\<forall>i. 0 < i \<and> i < length (a # b # bs) \<longrightarrow>
            PrevHash ((a # b # bs) ! i) = Hash ((a # b # bs) ! (i - 1))"
    proof (intro allI impI)
      fix i assume i: "0 < i \<and> i < length (a # b # bs)"
      show "PrevHash ((a # b # bs) ! i) = Hash ((a # b # bs) ! (i - 1))"
      proof (cases "i = 1")
        case True
        with l show ?thesis by simp
      next
        case False
        with i obtain j where j: "i = Suc j" "0 < j" "j < length (b # bs)"
          by (cases i) auto
        from l 3 have "PrevHash ((b # bs) ! j) = Hash ((b # bs) ! (j - 1))"
          using j by simp
        with j show ?thesis by (cases j) auto
      qed
    qed
  next
    assume r: "\<forall>i. 0 < i \<and> i < length (a # b # bs) \<longrightarrow>
            PrevHash ((a # b # bs) ! i) = Hash ((a # b # bs) ! (i - 1))"
    from r [rule_format, of 1] have h: "PrevHash b = Hash a" by simp
    have "\<forall>j. 0 < j \<and> j < length (b # bs) \<longrightarrow>
            PrevHash ((b # bs) ! j) = Hash ((b # bs) ! (j - 1))"
    proof (intro allI impI)
      fix j assume j: "0 < j \<and> j < length (b # bs)"
      with r [rule_format, of "Suc j"] show "PrevHash ((b # bs) ! j) = Hash ((b # bs) ! (j - 1))"
        by (cases j) auto
    qed
    with 3 h show "linked (a # b # bs)" by simp
  qed
qed simp_all

lemma mineBlock_Inr:
  assumes "Chain (blockchain w) \<noteq> []"
  shows "\<exists>b w1. mineBlock u t1 t2 n w = Inr (b, w1)
           \<and> PrevHash b = Hash (last (Chain (blockchain w)))
           \<and> Chain (blockchain w1) = Chain (blockchain w) @ [b]"
  using assms by (simp add: mineBlock_def Let_def last_conv_nth)

lemma mineBlocks_linked:
  "Chain (blockchain w) \<noteq> [] \<Longrightarrow> linked (Chain (blockchain w)) \<Longrightarrow>
   \<exists>w1. mineBlocks cs w = Inr w1 \<and> linked (Chain (blockchain w1))
      \<and> length (Chain (blockchain w1)) = length (Chain (blockchain w)) + length cs"
proof (induction cs arbitrary: w)
  case Nil
  then show ?case by simp
next
  case (Cons c cs)
  from mineBlock_Inr [OF Cons.prems(1), of "uuid c" "now1 c" "now2 c" "arg c"]
  obtain b w1 where m: "mineBlock (uuid c) (now1 c) (now2 c) (arg c) w = Inr (b, w1)"
    and p: "PrevHash b = Hash (last (Chain (blockchain w)))"
    and c: "Chain (blockchain w1) = Chain (blockchain w) @ [b]"
    by blast
  from c p Cons.prems have "Chain (blockchain w1) \<noteq> []" "linked (Chain (blockchain w1))"
    by (simp_all add: linked_append)
  from Cons.IH [OF this] obtain w2 where "mineBlocks cs w1 = Inr w2"
    "linked (Chain (blockchain w2))"
    "length (Chain (blockchain w2)) = length (Chain (blockchain w1)) + length cs"
    by blast
  with m c show ?case by simp
qed

text \<open>
  C1. Chain linkage: a process starts with an empty chain; after \<^verbatim>\<open>initBlockchain\<close>
  and any run of \<^verbatim>\<open>mineBlock\<close> calls (whatever UUIDs, clock readings, arguments and
  files) no call panics, and every block of the ledger but the first has as its
  \<^verbatim>\<open>PrevHash\<close> the \<^verbatim>\<open>Hash\<close> of the block just before it.
\<close>

theorem chain_linkage:
  assumes "Chain (blockchain w0) = []"
  shows "\<exists>w. mineBlocks cs (initBlockchain u w0) = Inr w
           \<and> (\<forall>i. 0 < i \<and> i < length (Chain (blockchain w)) \<longrightarrow>
                 PrevHash (Chain (blockchain w) ! i) = Hash (Chain (blockchain w) ! (i - 1)))"
proof -
  have "Chain (blockchain (initBlockchain u w0)) \<noteq> []"
    "linked (Chain (blockchain (initBlockchain u w0)))"
    using assms by (simp_all add: initBlockchain_def)
  from mineBlocks_linked [OF this, of cs] show ?thesis
    by (auto simp: linked_nth)
qed

theorem chain_linkage_witness:
  "Chain (blockchain fresh) = []
   \<and> (\<exists>w. mineBlocks [callA, callB] (initBlockchain uuid0 fresh) = Inr w
          \<and> length (Chain (blockchain w)) = 3
          \<and> PrevHash (Chain (blockchain w) ! 1) = Hash (Chain (blockchain w) ! 0)
          \<and> PrevHash (Chain (blockchain w) ! 2) = Hash (Chain (blockchain w) ! 1))"
proof -
  have e: "Chain (blockchain fresh) = []"
    by (simp add: fresh_def)
  from chain_linkage [OF e, of "[callA, callB]" uuid0]
  obtain w where w: "mineBlocks [callA, callB] (initBlockchain uuid0 fresh) = Inr w"
    and l: "\<forall>i. 0 < i \<and> i < length (Chain (blockchain w)) \<longrightarrow>
              PrevHash (Chain (blockchain w) ! i) = Hash (Chain (blockchain w) ! (i - 1))"
    by blast
  have "length (Chain (blockchain w)) = 3"
    using w by (simp add: mineBlock_def initBlockchain_def fresh_def Let_def) auto
  with l [rule_format, of 1] l [rule_format, of 2] w e show ?thesis
    by simp
qed

text \<open>
  C3. On a non-empty chain \<^verbatim>\<open>mineBlock\<close> does not panic, the block it returns has the
  hash of the old tip as its \<^verbatim>\<open>PrevHash\<close>, and the chain afterwards is the old chain
  with that block appended. Started on an empty chain, \<^verbatim>\<open>initBlockchain\<close> and two calls
  of \<^verbatim>\<open>mineBlock\<close> leave a ledger of length 3: the genesis block, the first mined
  block linked to it, the second linked to the first.
\<close>

theorem mineBlock_appends_to_tip:
  "(Chain (blockchain w) \<noteq> [] \<longrightarrow>
      (\<exists>b w1. mineBlock u t1 t2 n w = Inr (b, w1)
         \<and> PrevHash b = Hash (last (Chain (blockchain w)))
         \<and> Chain (blockchain w1) = Chain (blockchain w) @ [b]))
   \<and> (Chain (blockchain w) = [] \<longrightarrow>
      (\<exists>g bA wA bB wB.
         Chain (blockchain (initBlockchain u0 w)) = [g] \<and> PrevHash g = []
         \<and> mineBlock uA tA tA' nA (initBlockchain u0 w) = Inr (bA, wA)
         \<and> mineBlock uB tB tB' nB wA = Inr (bB, wB)
         \<and> PrevHash bA = Hash g \<and> PrevHash bB = Hash bA
         \<and> Chain (blockchain wB) = [g, bA, bB]
         \<and> length (Chain (blockchain wB)) = 3))"
proof (intro conjI impI)
  assume "Chain (blockchain w) \<noteq> []"
  then show "\<exists>b w1. mineBlock u t1 t2 n w = Inr (b, w1)
         \<and> PrevHash b = Hash (last (Chain (blockchain w)))
         \<and> Chain (blockchain w1) = Chain (blockchain w) @ [b]"
    by (rule mineBlock_Inr)
next
  assume e: "Chain (blockchain w) = []"
  obtain g where g: "Chain (blockchain (initBlockchain u0 w)) = [g]" "PrevHash g = []"
    using e by (simp add: initBlockchain_def)
  then have "Chain (blockchain (initBlockchain u0 w)) \<noteq> []" by simp
  from mineBlock_Inr [OF this, of uA tA tA' nA] g
  obtain bA wA where a: "mineBlock uA tA tA' nA (initBlockchain u0 w) = Inr (bA, wA)"
    "PrevHash bA = Hash g" "Chain (blockchain wA) = [g, bA]"
    by auto
  then have "Chain (blockchain wA) \<noteq> []" by simp
  from mineBlock_Inr [OF this, of uB tB tB' nB] a
  obtain bB wB where b: "mineBlock uB tB tB' nB wA = Inr (bB, wB)"
    "PrevHash bB = Hash bA" "Chain (blockchain wB) = [g, bA, bB]"
    by auto
  from g a b show "\<exists>g bA wA bB wB.
         Chain (blockchain (initBlockchain u0 w)) = [g] \<and> PrevHash g = []
         \<and> mineBlock uA tA tA' nA (initBlockchain u0 w) = Inr (bA, wA)
         \<and> mineBlock uB tB tB' nB wA = Inr (bB, wB)
         \<and> PrevHash bA = Hash g \<and> PrevHash bB = Hash bA
         \<and> Chain (blockchain wB) = [g, bA, bB]
         \<and> length (Chain (blockchain wB)) = 3"
    by auto
qed

theorem mineBlock_appends_to_tip_witness:
  "Chain (blockchain (initBlockchain uuid0 fresh)) \<noteq> []
   \<and> (\<exists>b w1. mineBlock (uuid callA) (now1 callA) (now2 callA) (arg callA)
               (initBlockchain uuid0 fresh) = Inr (b, w1)
         \<and> PrevHash b =
             calculateHash ''genesisHash'' ''2024-03-21 00:00:00'' ''Genesis Block'' []
         \<and> length (Chain (blockchain w1)) = 2)
   \<and> Chain (blockchain fresh) = []
   \<and> (\<exists>bA wA bB wB.
         mineBlock (uuid callA) (now1 callA) (now2 callA) (arg callA)
           (initBlockchain uuid0 fresh) = Inr (bA, wA)
         \<and> mineBlock (uuid callB) (now1 callB) (now2 callB) (arg callB) wA = Inr (bB, wB)
         \<and> PrevHash bB = Hash bA
         \<and> length (Chain (blockchain wB)) = 3)"
proof -
  let ?g = "initBlockchain uuid0 fresh"
  have n: "Chain (blockchain ?g) \<noteq> []" and e: "Chain (blockchain fresh) = []"
    by (simp_all add: initBlockchain_def fresh_def)
  have l: "Hash (last (Chain (blockchain ?g))) =
      calculateHash ''genesisHash'' ''2024-03-21 00:00:00'' ''Genesis Block'' []"
    and k: "length (Chain (blockchain ?g)) = 1"
    by (simp_all add: initBlockchain_def fresh_def)
  from mineBlock_appends_to_tip
    [of ?g "uuid callA" "now1 callA" "now2 callA" "arg callA", THEN conjunct1, rule_format, OF n]
  have 1: "\<exists>b w1. mineBlock (uuid callA) (now1 callA) (now2 callA) (arg callA) ?g = Inr (b, w1)
         \<and> PrevHash b =
             calculateHash ''genesisHash'' ''2024-03-21 00:00:00'' ''Genesis Block'' []
         \<and> length (Chain (blockchain w1)) = 2"
    using l k by auto
  from mineBlock_appends_to_tip
    [of fresh _ _ _ _ uuid0
        "uuid callA" "now1 callA" "now2 callA" "arg callA"
        "uuid callB" "now1 callB" "now2 callB" "arg callB", THEN conjunct2, rule_format, OF e]
  have 2: "\<exists>bA wA bB wB.
         mineBlock (uuid callA) (now1 callA) (now2 callA) (arg callA) ?g = Inr (bA, wA)
         \<and> mineBlock (uuid callB) (now1 callB) (now2 callB) (arg callB) wA = Inr (bB, wB)
         \<and> PrevHash bB = Hash bA
         \<and> length (Chain (blockchain wB)) = 3"
    by blast
  from n 1 e 2 show ?thesis by blast
qed

section \<open>Properties of the handler\<close>

lemma getPrimaryNodes_empty:
  "loadNodes w = (Inr [], w1) \<Longrightarrow> getPrimaryNodes w = (Inl PanicIndexOutOfRange, w1)"
  by (simp add: getPrimaryNodes_def)

lemma getChain_empty:
  "loadNodes w = (Inr [], w1) \<Longrightarrow> getChain w = (Inl PanicIndexOutOfRange, w1)"
  by (simp add: getChain_def readBlockchainData_def getPrimaryNodes_empty)

text \<open>
  C8. With an empty registry the handler of \<^verbatim>\<open>GET /chain\<close> gives no response: the
  index \<^verbatim>\<open>len(nodes)-1\<close> is out of range and the handler panics, whether the nodes file
  holds the empty array or does not exist yet. When the registry cannot be decoded,
  \<^verbatim>\<open>log.Fatalf\<close> ends the process. An error is reported to the client, with status
  500, only when the registry has an entry and the data file of its last entry cannot
  be read.
\<close>

theorem getChain_empty_registry:
  "fst (getChain nobody) = Inl PanicIndexOutOfRange
   \<and> fst (getChain fresh) = Inl PanicIndexOutOfRange
   \<and> fst (getChain garbled) = Inl Fatal
   \<and> fst (getChain twoPeers) = Inr (Response 500 (ErrorJSON ''Failed to read blockchain data''))"
proof -
  have "loadNodes nobody = (Inr [], nobody)"
    by (simp add: loadNodes_alt nobody_def)
  then have 1: "fst (getChain nobody) = Inl PanicIndexOutOfRange"
    by (simp add: getChain_empty)
  have "\<exists>w1. loadNodes fresh = (Inr [], w1)"
    by (simp add: loadNodes_alt)
  then have 2: "fst (getChain fresh) = Inl PanicIndexOutOfRange"
    by (auto simp: getChain_empty)
  have 3: "fst (getChain garbled) = Inl Fatal"
    by (simp add: getChain_def readBlockchainData_def getPrimaryNodes_def loadNodes_alt garbled_def)
  have 4: "fst (getChain twoPeers) = Inr (Response 500 (ErrorJSON ''Failed to read blockchain data''))"
    by (simp add: getChain_def readBlockchainData_def getPrimaryNodes_def loadNodes_alt
        ReadFile_def blockFile_def [symmetric])
  from 1 2 3 4 show ?thesis by simp
qed

section \<open>Properties of the hash\<close>

lemma length_digest_bytes: "length (digest_bytes d) = 32"
  by (cases d rule: digest_bytes.cases) (simp add: word_bytes_def)

lemma length_sprintf_x: "length (sprintf_x bs) = 2 * length bs"
  by (induction bs) (simp_all add: sprintf_x_def hexbyte_def)

lemma length_calculateHash: "length (calculateHash prevHash timestamp data prevHash2) = 64"
  by (simp add: calculateHash_def Sum256_def Let_def length_sprintf_x length_digest_bytes)

lemma calculateHash_concat:
  "prevHash @ timestamp @ data @ prevHash2 = prevHash' @ timestamp' @ data' @ prevHash2' \<Longrightarrow>
   calculateHash prevHash timestamp data prevHash2 = calculateHash prevHash' timestamp' data' prevHash2'"
  by (simp add: calculateHash_def)

text \<open>
  The digest is computed inside the logic, by rewriting with the definitions. The
  first value is the test vector of FIPS 180-4 for the message \<^verbatim>\<open>abc\<close>.
\<close>

lemma replicate_numeral: "replicate (numeral k) x = x # replicate (pred_numeral k) x"
  by (simp add: numeral_eq_Suc)

lemmas split16_eval = split16.simps [of "_ # _"] split16.simps [of "[]"]

lemmas sha_eval = calculateHash_def Sum256_def pad256_def be64_def replicate_numeral block256_def
  K256_def init256_def sched_def add32_def rotr_def shr_def Ch_def Maj_def bsig0_def bsig1_def
  ssig0_def ssig1_def word_bytes_def sprintf_x_def hexbyte_def hexdigit_def Let_def split16_eval

lemma Sum256_abc:
  "sprintf_x (Sum256 ''abc'') = ''ba7816bf8f01cfea414140de5dae2223b00361a396177a9cb410ff61f20015ad''"
  by (simp add: sha_eval)

lemma genesisHash_value:
  "genesisHash = ''20a7abc64b76fda54068cbc39d11edea004eef7519b5364c6a84c3e2fcfdb1da''"
  by (simp add: genesisHash_def sha_eval)

lemma Hash_blockA:
  "Hash blockA = ''29a05a4c750f5c691df0edc3314ba2e75bc7d110ed69c5aa51a539b039d26e74''"
  by (simp add: blockA_def callA_def genesisHash_value sha_eval)

lemma Hash_blockT:
  "Hash blockT = ''21ccfa3a5ff2d7f1629e3d694cab63665cf40305be7ec9015d6045570c6a4b73''"
  by (simp add: blockT_def callTick_def genesisHash_value sha_eval)

lemma mined_callA:
  "mined (mineBlock (uuid callA) (now1 callA) (now2 callA) (arg callA)
            (initBlockchain uuid0 fresh)) = Some blockA"
  by (simp add: mined_def mineBlock_def initBlockchain_def Let_def blockA_def genesisHash_def
      callA_def)

lemma mined_callTick:
  "mined (mineBlock (uuid callTick) (now1 callTick) (now2 callTick) (arg callTick)
            (initBlockchain uuid1 fresh)) = Some blockT"
  by (simp add: mined_def mineBlock_def initBlockchain_def Let_def blockT_def genesisHash_def
      callTick_def)

text \<open>
  C2. \<^verbatim>\<open>calculateHash\<close> is a function of its arguments, but the hash of a mined block is
  not a function of the block's \<^verbatim>\<open>PrevHash\<close>, \<^verbatim>\<open>Timestamp\<close> and \<^verbatim>\<open>Data\<close>: \<^verbatim>\<open>mineBlock\<close>
  reads the clock once for the \<^verbatim>\<open>Timestamp\<close> field and once more for the hash. Two
  processes with the same node ID mine on their genesis blocks in the same second;
  for one of them the second reading falls into the next second. The two blocks
  agree on \<^verbatim>\<open>PrevHash\<close>, \<^verbatim>\<open>Timestamp\<close> and \<^verbatim>\<open>Data\<close> and have different hashes.
\<close>

theorem mineBlock_two_clock_readings:
  "mined (mineBlock (uuid callA) (now1 callA) (now2 callA) (arg callA)
            (initBlockchain uuid0 fresh)) = Some blockA
   \<and> mined (mineBlock (uuid callTick) (now1 callTick) (now2 callTick) (arg callTick)
            (initBlockchain uuid1 fresh)) = Some blockT
   \<and> PrevHash blockA = PrevHash blockT
   \<and> Timestamp blockA = Timestamp blockT
   \<and> Data blockA = Data blockT
   \<and> Hash blockA = ''29a05a4c750f5c691df0edc3314ba2e75bc7d110ed69c5aa51a539b039d26e74''
   \<and> Hash blockT = ''21ccfa3a5ff2d7f1629e3d694cab63665cf40305be7ec9015d6045570c6a4b73''
   \<and> Hash blockA \<noteq> Hash blockT"
proof -
  have "PrevHash blockA = PrevHash blockT" "Timestamp blockA = Timestamp blockT"
    "Data blockA = Data blockT"
    by (simp_all add: blockA_def blockT_def callA_def callTick_def)
  moreover have "Hash blockA \<noteq> Hash blockT"
    by (simp add: Hash_blockA Hash_blockT)
  ultimately show ?thesis
    using mined_callA mined_callTick Hash_blockA Hash_blockT by simp
qed

section \<open>Properties of the genesis block\<close>

text \<open>
  C5, as amended. Started on an empty chain, \<^verbatim>\<open>initBlockchain\<close> leaves one block whose
  \<^verbatim>\<open>PrevHash\<close> is empty, whose timestamp and data are the fixed genesis strings and whose
  hash is \<^verbatim>\<open>calculateHash\<close> of the fixed inputs. Two nodes get genesis blocks that
  agree on every field but the ID, which is the UUID each of them drew: the blocks
  are identical exactly when the UUIDs are.
\<close>

theorem genesis_fields:
  "Chain (blockchain w1) = [] \<and> Chain (blockchain w2) = [] \<longrightarrow>
     (\<exists>g1 g2. Chain (blockchain (initBlockchain u1 w1)) = [g1]
        \<and> Chain (blockchain (initBlockchain u2 w2)) = [g2]
        \<and> PrevHash g1 = [] \<and> Timestamp g1 = ''2024-03-21 00:00:00'' \<and> Data g1 = ''Genesis Block''
        \<and> Hash g1 = calculateHash ''genesisHash'' ''2024-03-21 00:00:00'' ''Genesis Block'' []
        \<and> PrevHash g2 = PrevHash g1 \<and> Timestamp g2 = Timestamp g1 \<and> Data g2 = Data g1
        \<and> Hash g2 = Hash g1
        \<and> ID g1 = u1 \<and> ID g2 = u2 \<and> (g1 = g2) = (u1 = u2))"
  by (auto simp: initBlockchain_def)

theorem genesis_fields_witness:
  "Chain (blockchain fresh) = [] \<and> Chain (blockchain twoPeers) = []
   \<and> (\<exists>g1 g2. Chain (blockchain (initBlockchain uuid0 fresh)) = [g1]
        \<and> Chain (blockchain (initBlockchain uuid1 twoPeers)) = [g2]
        \<and> PrevHash g1 = []
        \<and> Hash g1 = ''20a7abc64b76fda54068cbc39d11edea004eef7519b5364c6a84c3e2fcfdb1da''
        \<and> Hash g2 = ''20a7abc64b76fda54068cbc39d11edea004eef7519b5364c6a84c3e2fcfdb1da''
        \<and> ID g1 = uuid0 \<and> ID g2 = uuid1 \<and> g1 \<noteq> g2)"
proof -
  have e: "Chain (blockchain fresh) = [] \<and> Chain (blockchain twoPeers) = []"
    by simp
  have n: "uuid0 \<noteq> uuid1"
    by (simp add: uuid0_def uuid1_def)
  have h: "calculateHash ''genesisHash'' ''2024-03-21 00:00:00'' ''Genesis Block'' [] =
      ''20a7abc64b76fda54068cbc39d11edea004eef7519b5364c6a84c3e2fcfdb1da''"
    using genesisHash_value by (simp add: genesisHash_def)
  from genesis_fields [of fresh twoPeers uuid0 uuid1, rule_format, OF e]
  obtain g1 g2 where g: "Chain (blockchain (initBlockchain uuid0 fresh)) = [g1]"
    "Chain (blockchain (initBlockchain uuid1 twoPeers)) = [g2]"
    "PrevHash g1 = []"
    "Hash g1 = calculateHash ''genesisHash'' ''2024-03-21 00:00:00'' ''Genesis Block'' []"
    "Hash g2 = Hash g1" "ID g1 = uuid0" "ID g2 = uuid1" "(g1 = g2) = (uuid0 = uuid1)"
    by blast
  from g n have "g1 \<noteq> g2" by simp
  with g e show ?thesis
    by (simp only: h) blast
qed

text \<open>
  C5 as stated fails: the genesis blocks of two nodes differ, in the ID.
\<close>

theorem genesis_fields_counterexample:
  "Chain (blockchain (initBlockchain uuid0 fresh)) \<noteq> Chain (blockchain (initBlockchain uuid1 fresh))"
  by (simp add: initBlockchain_def uuid0_def uuid1_def)


end
